theory Spec2Isabelle
  imports Complex_Main "HOL-Library.Word" "HOL-Library.Log_Nat"
begin

section \<open>Colors and the color table\<close>

text \<open>
  \<^verbatim>\<open>type RGB struct { R, G, B uint8 }\<close>, \<^verbatim>\<open>type Color int\<close> with the constants
  \<^verbatim>\<open>red = iota ... white\<close>, and \<^verbatim>\<open>type Point struct { X, Y int }\<close>.
  A \<^verbatim>\<open>Color\<close> is an integer: values outside \<open>0..8\<close> are well-typed, which is why the
  code looks every color up in \<^verbatim>\<open>colorMap\<close> before using it.

  Go's \<^verbatim>\<open>int\<close> has 64 bits and wraps around. It is modelled by \<^typ>\<open>int\<close>, on which the
  code computes the same values wherever its operands have passed a comparison with the
  grid's dimensions: the loop counters of \<^verbatim>\<open>Rectangle.draw\<close> and \<^verbatim>\<open>Triangle.draw\<close>, and
  the arguments \<^verbatim>\<open>Triangle.draw\<close> gives to \<^verbatim>\<open>interpolate\<close>. Two computations come before
  any comparison. The sums \<open>CP \<plusminus> R\<close> and the squares of \<^verbatim>\<open>Circle.draw\<close> are taken in
  \<^typ>\<open>int\<close>: the definitions describe the circles whose sums and squares stay inside
  64 bits. For \<^verbatim>\<open>interpolate\<close> called on its own, \<open>interpolate_int64\<close> writes the
  wrap-around out.
\<close>

type_synonym Color = int

definition red :: Color where "red = 0"
definition green :: Color where "green = 1"
definition blue :: Color where "blue = 2"
definition yellow :: Color where "yellow = 3"
definition orange :: Color where "orange = 4"
definition purple :: Color where "purple = 5"
definition brown :: Color where "brown = 6"
definition black :: Color where "black = 7"
definition white :: Color where "white = 8"

type_synonym RGB = "8 word \<times> 8 word \<times> 8 word"

record Point =
  X :: int
  Y :: int

definition colorMap :: "Color \<rightharpoonup> RGB" where
  "colorMap c =
     (if c = red then Some (255, 0, 0)
      else if c = green then Some (0, 255, 0)
      else if c = blue then Some (0, 0, 255)
      else if c = yellow then Some (255, 255, 0)
      else if c = orange then Some (255, 164, 0)
      else if c = purple then Some (128, 0, 128)
      else if c = brown then Some (165, 42, 42)
      else if c = black then Some (0, 0, 0)
      else if c = white then Some (255, 255, 255)
      else None)"

section \<open>Results of a call\<close>

text \<open>
  A Go method of this program ends in one of three ways: it returns \<^verbatim>\<open>nil\<close> (or a value
  with a \<^verbatim>\<open>nil\<close> error), it returns an error, or the runtime panics (a negative length
  given to \<^verbatim>\<open>make\<close>, an index out of range). The receiver is a pointer, so a call that
  returns an error may already have changed the display: \<open>Fail\<close> carries the state too.
  What a panic leaves behind is not described.
\<close>

datatype error =
    PixelOutOfBounds          \<comment> \<open>\<^verbatim>\<open>errors.New("pixel out of bounds")\<close>\<close>
  | ColorUnknown              \<comment> \<open>\<^verbatim>\<open>fmt.Errorf("color unknown")\<close>\<close>
  | GeometryOutOfBounds       \<comment> \<open>\<^verbatim>\<open>fmt.Errorf("geometry out of bounds")\<close>\<close>
  | CircleGeometryOutOfBounds \<comment> \<open>\<^verbatim>\<open>fmt.Errorf("%s: geometry out of bounds", c.shape())\<close>\<close>
  | InvalidColorAt int int    \<comment> \<open>\<^verbatim>\<open>fmt.Errorf("invalid color at pixel [%d, %d]", x, y)\<close>\<close>
  | IOFailure                 \<comment> \<open>an error of \<^verbatim>\<open>os.Create\<close>, \<^verbatim>\<open>Fprintf\<close> or \<^verbatim>\<open>Fprintln\<close>\<close>

datatype 'a outcome = Ok 'a | Fail error 'a | Panic

section \<open>The display\<close>

record Display =
  maxX :: int
  maxY :: int
  matrix :: "Color list list"

text \<open>
  \<^verbatim>\<open>make([]T, n)\<close>: \<open>n\<close> zero values; \<open>None\<close> is the runtime panic on a negative
  \<open>n\<close>. Memory is not bounded in this model.
\<close>

definition make_slice :: "'a \<Rightarrow> int \<Rightarrow> 'a list option" where
  "make_slice zero n = (if n < 0 then None else Some (replicate (nat n) zero))"

text \<open>
  \<^verbatim>\<open>initialize\<close>: the two dimensions are stored, the outer slice is made, then one inner
  slice per row is made and filled with \<^verbatim>\<open>white\<close>. With no row the inner \<^verbatim>\<open>make\<close> is never
  reached.
\<close>

definition initialize :: "int \<Rightarrow> int \<Rightarrow> Display \<Rightarrow> Display outcome" where
  "initialize mx my d =
     (case make_slice ([] :: Color list) my of
        None \<Rightarrow> Panic
      | Some rows \<Rightarrow>
          if rows = [] then Ok (d\<lparr>maxX := mx, maxY := my, matrix := []\<rparr>)
          else (case make_slice red mx of
                  None \<Rightarrow> Panic
                | Some row \<Rightarrow>
                    Ok (d\<lparr>maxX := mx, maxY := my,
                          matrix := map (\<lambda>_. map (\<lambda>_. white) row) rows\<rparr>)))"

text \<open>
  \<^verbatim>\<open>drawPixel\<close>: the row index is the argument \<open>x\<close>, the column index the argument \<open>y\<close>.
  The last branch is Go's index check on \<^verbatim>\<open>d.matrix[rotatedY][rotatedX]\<close>.
\<close>

definition drawPixel :: "int \<Rightarrow> int \<Rightarrow> Color \<Rightarrow> Display \<Rightarrow> Display outcome" where
  "drawPixel x y c d =
     (let rotatedY = x; rotatedX = y in
      if rotatedX < 0 \<or> rotatedY < 0 \<or> rotatedX \<ge> maxX d \<or> rotatedY \<ge> maxY d
      then Fail PixelOutOfBounds d
      else if colorMap c = None then Fail ColorUnknown d
      else if nat rotatedY < length (matrix d)
               \<and> nat rotatedX < length (matrix d ! nat rotatedY)
      then Ok (d\<lparr>matrix := (matrix d)[nat rotatedY := (matrix d ! nat rotatedY)[nat rotatedX := c]]\<rparr>)
      else Panic)"

text \<open>\<^verbatim>\<open>getPixel\<close> reads row \<open>y\<close>, column \<open>x\<close>; on an error it returns the color \<open>0\<close>.\<close>

definition getPixel :: "int \<Rightarrow> int \<Rightarrow> Display \<Rightarrow> Color outcome" where
  "getPixel x y d =
     (if x < 0 \<or> y < 0 \<or> x \<ge> maxX d \<or> y \<ge> maxY d then Fail PixelOutOfBounds 0
      else if nat y < length (matrix d) \<and> nat x < length (matrix d ! nat y)
      then Ok (matrix d ! nat y ! nat x)
      else Panic)"

definition clearScreen :: "Display \<Rightarrow> Display" where
  "clearScreen d = d\<lparr>matrix := map (\<lambda>row. map (\<lambda>_. white) row) (matrix d)\<rparr>"

definition getMaxXY :: "Display \<Rightarrow> int \<times> int" where
  "getMaxXY d = (maxX d, maxY d)"

text \<open>
  A display is well formed when its grid has \<open>maxY\<close> rows of \<open>maxX\<close> cells each: the state
  \<^verbatim>\<open>initialize\<close> leaves behind, and the one every other method keeps.
\<close>

definition wf_display :: "Display \<Rightarrow> bool" where
  "wf_display d \<longleftrightarrow>
     0 \<le> maxX d \<and> 0 \<le> maxY d \<and> length (matrix d) = nat (maxY d)
     \<and> list_all (\<lambda>row. length row = nat (maxX d)) (matrix d)"

definition colors_known :: "Display \<Rightarrow> bool" where
  "colors_known d \<longleftrightarrow> list_all (list_all (\<lambda>c. colorMap c \<noteq> None)) (matrix d)"

text \<open>The coordinates \<^verbatim>\<open>drawPixel\<close> accepts: \<open>x\<close> below \<open>maxY\<close>, \<open>y\<close> below \<open>maxX\<close>.\<close>

definition in_grid :: "Display \<Rightarrow> int \<times> int \<Rightarrow> bool" where
  "in_grid d p \<longleftrightarrow> 0 \<le> fst p \<and> fst p < maxY d \<and> 0 \<le> snd p \<and> snd p < maxX d"

section \<open>Painting a sequence of pixels\<close>

text \<open>
  Every fill loop of the program calls \<^verbatim>\<open>drawPixel\<close> on one coordinate after the other and
  returns at the first error. \<open>paint\<close> is that loop over the coordinates in the order the
  nested \<^verbatim>\<open>for\<close> statements produce them.
\<close>

fun paint :: "(int \<times> int) list \<Rightarrow> Color \<Rightarrow> Display \<Rightarrow> Display outcome" where
  "paint [] c d = Ok d"
| "paint (p # ps) c d =
     (case drawPixel (fst p) (snd p) c d of
        Ok d' \<Rightarrow> paint ps c d'
      | Fail e d' \<Rightarrow> Fail e d'
      | Panic \<Rightarrow> Panic)"

section \<open>Rectangle\<close>

record Rectangle =
  LL :: Point
  UR :: Point
  rect_C :: Color

text \<open>The coordinates of the nested loops: \<open>y\<close> outside, \<open>x\<close> inside.\<close>

definition rect_pixels :: "Rectangle \<Rightarrow> (int \<times> int) list" where
  "rect_pixels r =
     concat (map (\<lambda>y. map (\<lambda>x. (x, y)) [X (LL r) .. X (UR r)]) [Y (LL r) .. Y (UR r)])"

definition Rectangle_draw :: "Rectangle \<Rightarrow> Display \<Rightarrow> Display outcome" where
  "Rectangle_draw r scn =
     (let (mx, my) = getMaxXY scn in
      if X (LL r) < 0 \<or> Y (LL r) < 0 \<or> X (UR r) \<ge> mx \<or> Y (UR r) \<ge> my
      then Fail GeometryOutOfBounds scn
      else paint (rect_pixels r) (rect_C r) scn)"

section \<open>Circle\<close>

record Circle =
  CP :: Point
  R :: int
  circ_C :: Color

text \<open>
  The offsets the two loops visit, in order, that pass the distance test. The test and
  the sums of the bounds check are those of \<^typ>\<open>int\<close>: a circle whose \<open>CP.X + R\<close>,
  \<open>CP.Y + R\<close> or \<open>R * R\<close> leaves the 64-bit range, where the code wraps around, is not
  described by these definitions.
\<close>

definition circle_pixels :: "Circle \<Rightarrow> (int \<times> int) list" where
  "circle_pixels c =
     concat (map (\<lambda>y. map (\<lambda>x. (X (CP c) + x, Y (CP c) + y))
                          (filter (\<lambda>x. x * x + y * y \<le> R c * R c) [- R c .. R c]))
                 [- R c .. R c])"

definition Circle_draw :: "Circle \<Rightarrow> Display \<Rightarrow> Display outcome" where
  "Circle_draw c scn =
     (let (mx, my) = getMaxXY scn in
      if X (CP c) - R c < 0 \<or> X (CP c) + R c \<ge> mx \<or> Y (CP c) - R c < 0 \<or> Y (CP c) + R c \<ge> my
      then Fail CircleGeometryOutOfBounds scn
      else paint (circle_pixels c) (circ_C c) scn)"

section \<open>Double-precision arithmetic\<close>

text \<open>
  \<^verbatim>\<open>interpolate\<close> computes in \<^verbatim>\<open>float64\<close>. A value is a rational number (every finite
  double is one), an infinity or NaN. The sign of a zero is not kept: the only divisor
  is \<^verbatim>\<open>float64(y1-y0)\<close>, which is \<open>+0\<close> when it is zero, and the results are only ever
  added and truncated, where \<open>-0\<close> and \<open>+0\<close> act alike.

  \<open>f64_round\<close> is IEEE 754 round-to-nearest, ties-to-even, to a 53-bit significand with
  the exponent range of binary64: the spacing of doubles around \<open>q\<close> is \<open>2 powi e\<close>, with
  \<open>e\<close> no smaller than the subnormal spacing \<open>- 1074\<close>, and a result that reaches
  \<open>2 ^ 1024\<close> overflows to an infinity.
\<close>

datatype f64 = Finite rat | PosInf | NegInf | NaN

definition round_half_even :: "rat \<Rightarrow> int" where
  "round_half_even q =
     (let f = \<lfloor>q\<rfloor>; r = q - of_int f in
      if r < 1 / 2 then f else if 1 / 2 < r then f + 1 else if even f then f else f + 1)"

text \<open>\<open>floor_log2 q\<close> is the \<open>k\<close> with \<open>2 powi k \<le> q < 2 powi (k + 1)\<close>, for \<open>0 < q\<close>.\<close>

definition floor_log2 :: "rat \<Rightarrow> int" where
  "floor_log2 q =
     (let (a, b) = quotient_of q; k = bitlen a - bitlen b in
      if 2 powi k \<le> q then k else k - 1)"

definition f64_round :: "rat \<Rightarrow> f64" where
  "f64_round q =
     (if q = 0 then Finite 0
      else let e = max (floor_log2 \<bar>q\<bar> - 52) (- 1074);
               n = round_half_even (\<bar>q\<bar> / 2 powi e);
               r = of_int n * 2 powi e
           in if 2 ^ 1024 \<le> r then (if 0 < q then PosInf else NegInf)
              else Finite (sgn q * r))"

text \<open>\<^verbatim>\<open>float64(i)\<close> of an integer.\<close>

definition f64_of_int :: "int \<Rightarrow> f64" where
  "f64_of_int i = f64_round (of_int i)"

text \<open>\<^verbatim>\<open>a / b\<close>: a finite value over zero is an infinity, zero over zero is NaN; no panic.\<close>

fun f64_div :: "f64 \<Rightarrow> f64 \<Rightarrow> f64" where
  "f64_div (Finite a) (Finite b) =
     (if b = 0 then (if a = 0 then NaN else if 0 < a then PosInf else NegInf)
      else f64_round (a / b))"
| "f64_div (Finite a) PosInf = Finite 0"
| "f64_div (Finite a) NegInf = Finite 0"
| "f64_div PosInf (Finite b) = (if 0 \<le> b then PosInf else NegInf)"
| "f64_div NegInf (Finite b) = (if 0 \<le> b then NegInf else PosInf)"
| "f64_div _ _ = NaN"

fun f64_add :: "f64 \<Rightarrow> f64 \<Rightarrow> f64" where
  "f64_add (Finite a) (Finite b) = f64_round (a + b)"
| "f64_add NaN _ = NaN"
| "f64_add _ NaN = NaN"
| "f64_add PosInf NegInf = NaN"
| "f64_add NegInf PosInf = NaN"
| "f64_add PosInf _ = PosInf"
| "f64_add _ PosInf = PosInf"
| "f64_add NegInf _ = NegInf"
| "f64_add _ NegInf = NegInf"

text \<open>
  \<^verbatim>\<open>int(d)\<close> truncates toward zero. Where the value is not an \<^verbatim>\<open>int64\<close> (NaN, an
  infinity, too large) Go leaves the result to the implementation; amd64 gives the
  smallest integer.
\<close>

definition int_of_f64 :: "f64 \<Rightarrow> int" where
  "int_of_f64 d =
     (case d of
        Finite q \<Rightarrow>
          (let t = (if 0 \<le> q then \<lfloor>q\<rfloor> else \<lceil>q\<rceil>) in
           if - (2 ^ 63) \<le> t \<and> t < 2 ^ 63 then t else - (2 ^ 63))
      | _ \<Rightarrow> - (2 ^ 63))"

section \<open>Triangle\<close>

record Triangle =
  Pt0 :: Point
  Pt1 :: Point
  Pt2 :: Point
  tri_C :: Color

text \<open>
  The loop of \<^verbatim>\<open>interpolate\<close> over the rows \<open>y0 .. y1\<close>: the row itself is not read, each
  turn appends \<^verbatim>\<open>int(d)\<close> and adds the slope to \<open>d\<close>.
\<close>

fun interp_loop :: "f64 \<Rightarrow> f64 \<Rightarrow> int list \<Rightarrow> int list" where
  "interp_loop a d [] = []"
| "interp_loop a d (y # ys) = int_of_f64 d # interp_loop a (f64_add d a) ys"

text \<open>
  \<^verbatim>\<open>interpolate\<close>, on the arguments \<^verbatim>\<open>Triangle.draw\<close> gives it: coordinates that have
  passed its bounds check, for which no integer operation of \<^verbatim>\<open>interpolate\<close> leaves the
  64-bit range. \<open>None\<close> is the panic of \<^verbatim>\<open>make([]int, 0, y1-y0+1)\<close> on a negative
  capacity. The function on all 64-bit arguments is \<open>interpolate_int64\<close>, further down.
\<close>

definition interpolate :: "int \<Rightarrow> int \<Rightarrow> int \<Rightarrow> int \<Rightarrow> int list option" where
  "interpolate y0 x0 y1 x1 =
     (if y1 - y0 + 1 < 0 then None
      else let a = f64_div (f64_of_int (x1 - x0)) (f64_of_int (y1 - y0));
               d = f64_of_int x0
           in Some (interp_loop a d [y0 .. y1]))"

text \<open>The three conditional swaps that order the vertices by \<open>y\<close>.\<close>

definition sort_vertices :: "Triangle \<Rightarrow> (int \<times> int) \<times> (int \<times> int) \<times> (int \<times> int)" where
  "sort_vertices t =
     (let x0 = X (Pt0 t); y0 = Y (Pt0 t);
          x1 = X (Pt1 t); y1 = Y (Pt1 t);
          x2 = X (Pt2 t); y2 = Y (Pt2 t);
          (x0, y0, x1, y1) = (if y1 < y0 then (x1, y1, x0, y0) else (x0, y0, x1, y1));
          (x0, y0, x2, y2) = (if y2 < y0 then (x2, y2, x0, y0) else (x0, y0, x2, y2));
          (x1, y1, x2, y2) = (if y2 < y1 then (x2, y2, x1, y1) else (x1, y1, x2, y2))
      in ((x0, y0), (x1, y1), (x2, y2)))"

text \<open>\<^verbatim>\<open>xs[i]\<close> with Go's index check.\<close>

definition index :: "int list \<Rightarrow> int \<Rightarrow> int option" where
  "index xs i = (if 0 \<le> i \<and> nat i < length xs then Some (xs ! nat i) else None)"

text \<open>The drawing loops: for each row \<open>y\<close>, the pixels from the left to the right edge.\<close>

fun fill_rows ::
  "int list \<Rightarrow> int list \<Rightarrow> int \<Rightarrow> int list \<Rightarrow> Color \<Rightarrow> Display \<Rightarrow> Display outcome" where
  "fill_rows x_left x_right y0 [] c d = Ok d"
| "fill_rows x_left x_right y0 (y # ys) c d =
     (case index x_left (y - y0) of
        None \<Rightarrow> Panic
      | Some l \<Rightarrow>
          (case index x_right (y - y0) of
             None \<Rightarrow> Panic
           | Some r \<Rightarrow>
               (case paint (map (\<lambda>x. (x, y)) [l .. r]) c d of
                  Ok d' \<Rightarrow> fill_rows x_left x_right y0 ys c d'
                | Fail e d' \<Rightarrow> Fail e d'
                | Panic \<Rightarrow> Panic)))"

text \<open>
  The edges of the sorted triangle: \<open>x02\<close> and \<open>x012 = append(x01, x12[1:]...)\<close>, and
  which of them is the left one, decided at the middle row. \<open>None\<close> is a panic (of
  \<^verbatim>\<open>interpolate\<close>, of the slice \<^verbatim>\<open>x12[1:]\<close> or of an index).
\<close>

definition triangle_edges ::
  "(int \<times> int) \<Rightarrow> (int \<times> int) \<Rightarrow> (int \<times> int) \<Rightarrow> (int list \<times> int list) option" where
  "triangle_edges p0 p1 p2 =
     (let (x0, y0) = p0; (x1, y1) = p1; (x2, y2) = p2 in
      (case interpolate y0 x0 y1 x1 of
         None \<Rightarrow> None
       | Some x01 \<Rightarrow>
      (case interpolate y1 x1 y2 x2 of
         None \<Rightarrow> None
       | Some x12 \<Rightarrow>
      (case interpolate y0 x0 y2 x2 of
         None \<Rightarrow> None
       | Some x02 \<Rightarrow>
           if length x12 < 1 then None
           else (let x012 = x01 @ drop 1 x12;
                     m = int (length x012) div 2
                 in (case index x02 m of
                       None \<Rightarrow> None
                     | Some a \<Rightarrow>
                    (case index x012 m of
                       None \<Rightarrow> None
                     | Some b \<Rightarrow> if a < b then Some (x02, x012) else Some (x012, x02))))))))"

definition Triangle_draw :: "Triangle \<Rightarrow> Display \<Rightarrow> Display outcome" where
  "Triangle_draw t scn =
     (let (mx, my) = getMaxXY scn;
          ((x0, y0), (x1, y1), (x2, y2)) = sort_vertices t in
      if x0 < 0 \<or> x1 < 0 \<or> x2 < 0 \<or> y0 < 0 \<or> y1 < 0 \<or> y2 < 0
         \<or> x0 \<ge> mx \<or> x1 \<ge> mx \<or> x2 \<ge> mx \<or> y0 \<ge> my \<or> y1 \<ge> my \<or> y2 \<ge> my
      then Fail GeometryOutOfBounds scn
      else (case triangle_edges (x0, y0) (x1, y1) (x2, y2) of
              None \<Rightarrow> Panic
            | Some (x_left, x_right) \<Rightarrow> fill_rows x_left x_right y0 [y0 .. y2] (tri_C t) scn))"

section \<open>interpolate on all 64-bit arguments\<close>

text \<open>
  The value a 64-bit signed operation leaves of the exact result \<open>i\<close>.
\<close>

definition wrap64 :: "int \<Rightarrow> int" where
  "wrap64 i = (i + 2 ^ 63) mod 2 ^ 64 - 2 ^ 63"

text \<open>
  The loop \<^verbatim>\<open>for y := y0; y <= y1; y++\<close> with the slice built so far; \<^verbatim>\<open>y++\<close> wraps
  around. With \<open>y1 = 2 ^ 63 - 1\<close> the test \<^verbatim>\<open>y <= y1\<close> cannot fail and the loop does not
  end: \<open>None\<close> is the call that never returns.
\<close>

partial_function (option) interp_loop64 ::
  "f64 \<Rightarrow> int \<Rightarrow> f64 \<Rightarrow> int \<Rightarrow> int list \<Rightarrow> int list option" where
  "interp_loop64 a y1 d y values =
     (if y \<le> y1
      then interp_loop64 a y1 (f64_add d a) (wrap64 (y + 1)) (values @ [int_of_f64 d])
      else Some values)"

text \<open>
  \<^verbatim>\<open>interpolate\<close> with every integer operation in 64 bits: the capacity \<^verbatim>\<open>y1-y0+1\<close>, the
  differences \<^verbatim>\<open>x1-x0\<close> and \<^verbatim>\<open>y1-y0\<close>, and the loop. The result is \<open>None\<close> when the
  call never returns, \<open>Some None\<close> when \<^verbatim>\<open>make\<close> panics on a negative capacity, and
  \<open>Some (Some values)\<close> when it returns \<open>values\<close>. As for \<^verbatim>\<open>make\<close> above, memory is not
  bounded.
\<close>

definition interpolate_int64 :: "int \<Rightarrow> int \<Rightarrow> int \<Rightarrow> int \<Rightarrow> int list option option" where
  "interpolate_int64 y0 x0 y1 x1 =
     (if wrap64 (wrap64 (y1 - y0) + 1) < 0 then Some None
      else let a = f64_div (f64_of_int (wrap64 (x1 - x0))) (f64_of_int (wrap64 (y1 - y0)));
               d = f64_of_int x0
           in map_option Some (interp_loop64 a y1 d y0 []))"

section \<open>The shape-level bounds checks\<close>

text \<open>
  The condition under which \<^verbatim>\<open>Rectangle.draw\<close> and \<^verbatim>\<open>Triangle.draw\<close> go on to their fill
  loops: the negation of the test that makes them return the geometry error. The
  triangle tests its vertices after sorting them.
\<close>

definition Rectangle_in_bounds :: "Rectangle \<Rightarrow> Display \<Rightarrow> bool" where
  "Rectangle_in_bounds r d \<longleftrightarrow>
     \<not> (X (LL r) < 0 \<or> Y (LL r) < 0 \<or> X (UR r) \<ge> maxX d \<or> Y (UR r) \<ge> maxY d)"


section \<open>Writing the image file\<close>

text \<open>
  The file system: the contents of the files, the paths \<^verbatim>\<open>os.Create\<close> refuses, and how
  many more writes succeed (\<open>None\<close>: no write fails). A refused write adds nothing.
\<close>

record FS =
  files :: "string \<rightharpoonup> string"
  denied :: "string list"
  budget :: "nat option"

text \<open>The verb \<^verbatim>\<open>%d\<close>.\<close>

function string_of_nat :: "nat \<Rightarrow> string" where
  "string_of_nat n =
     (if n < 10 then [''0123456789'' ! n]
      else string_of_nat (n div 10) @ [''0123456789'' ! (n mod 10)])"
  by pat_completeness auto
termination
  by (relation "measure id") auto

definition string_of_int :: "int \<Rightarrow> string" where
  "string_of_int i = (if i < 0 then CHR ''-'' # string_of_nat (nat (- i)) else string_of_nat (nat i))"

text \<open>One \<^verbatim>\<open>Fprintf\<close> or \<^verbatim>\<open>Fprintln\<close> on the open file: the text written so far and the budget.\<close>

definition fprint :: "string \<Rightarrow> string \<times> nat option \<Rightarrow> (string \<times> nat option) option" where
  "fprint s w =
     (case snd w of
        None \<Rightarrow> Some (fst w @ s, None)
      | Some 0 \<Rightarrow> None
      | Some (Suc n) \<Rightarrow> Some (fst w @ s, Some n))"

definition rgb_text :: "RGB \<Rightarrow> string" where
  "rgb_text c =
     (case c of (r, g, b) \<Rightarrow>
        string_of_nat (unat r) @ '' '' @ string_of_nat (unat g) @ '' '' @ string_of_nat (unat b) @ '' '')"

text \<open>The inner loop over the columns \<open>x\<close> of row \<open>y\<close>, and the outer loop over the rows.\<close>

fun shot_cells ::
  "Display \<Rightarrow> int \<Rightarrow> int list \<Rightarrow> string \<times> nat option \<Rightarrow> (string \<times> nat option) outcome" where
  "shot_cells d y [] w = Ok w"
| "shot_cells d y (x # xs) w =
     (if nat y < length (matrix d) \<and> nat x < length (matrix d ! nat y)
      then (case colorMap (matrix d ! nat y ! nat x) of
              None \<Rightarrow> Fail (InvalidColorAt x y) w
            | Some color \<Rightarrow>
                (case fprint (rgb_text color) w of
                   None \<Rightarrow> Fail IOFailure w
                 | Some w' \<Rightarrow> shot_cells d y xs w'))
      else Panic)"

fun shot_rows ::
  "Display \<Rightarrow> int list \<Rightarrow> string \<times> nat option \<Rightarrow> (string \<times> nat option) outcome" where
  "shot_rows d [] w = Ok w"
| "shot_rows d (y # ys) w =
     (case shot_cells d y [0 .. maxX d - 1] w of
        Ok w' \<Rightarrow>
          (case fprint ''\<newline>'' w' of
             None \<Rightarrow> Fail IOFailure w'
           | Some w'' \<Rightarrow> shot_rows d ys w'')
      | Fail e w' \<Rightarrow> Fail e w'
      | Panic \<Rightarrow> Panic)"

text \<open>
  \<^verbatim>\<open>screenShot\<close>: \<^verbatim>\<open>os.Create\<close> truncates the file; whatever was written before an error
  stays in it. After a panic the file system is not described.
\<close>

definition store :: "string \<Rightarrow> string \<times> nat option \<Rightarrow> FS \<Rightarrow> FS" where
  "store path w fs = fs\<lparr>files := (files fs)(path \<mapsto> fst w), budget := snd w\<rparr>"

text \<open>The header: \<^verbatim>\<open>Fprintf(file, "P3\n%d %d\n255\n", d.maxX, d.maxY)\<close>.\<close>

definition ppm_header :: "Display \<Rightarrow> string" where
  "ppm_header d =
     ''P3\<newline>'' @ string_of_int (maxX d) @ '' '' @ string_of_int (maxY d) @ ''\<newline>255\<newline>''"

definition screenShot :: "string \<Rightarrow> Display \<Rightarrow> FS \<Rightarrow> FS outcome" where
  "screenShot filename d fs =
     (let path = filename @ ''.ppm'' in
      if path \<in> set (denied fs) then Fail IOFailure fs
      else
        (case fprint (ppm_header d) ([], budget fs) of
           None \<Rightarrow> Fail IOFailure (store path ([], budget fs) fs)
         | Some w \<Rightarrow>
             (case shot_rows d [0 .. maxY d - 1] w of
                Ok w' \<Rightarrow> Ok (store path w' fs)
              | Fail e w' \<Rightarrow> Fail e (store path w' fs)
              | Panic \<Rightarrow> Panic)))"

text \<open>
  The file the format describes: the header, then one line per row of the grid, each cell
  as the three channels of its color's table entry.
\<close>

definition ppm_row :: "Color list \<Rightarrow> string" where
  "ppm_row row = concat (map (\<lambda>c. rgb_text (the (colorMap c))) row) @ ''\<newline>''"

definition ppm_text :: "Display \<Rightarrow> string" where
  "ppm_text d = ppm_header d @ concat (map ppm_row (matrix d))"

section \<open>Sample displays\<close>

text \<open>The display \<^verbatim>\<open>initialize(3, 2)\<close> leaves: two rows of three white cells.\<close>

definition grid32 :: Display where
  "grid32 = \<lparr>maxX = 3, maxY = 2, matrix = [[white, white, white], [white, white, white]]\<rparr>"

text \<open>
  The displays \<^verbatim>\<open>initialize(10, 10)\<close> and \<^verbatim>\<open>initialize(12, 12)\<close>, the rectangle and the circle
  of the test properties, and what drawing them leaves.
\<close>

definition grid10 :: Display where
  "grid10 = \<lparr>maxX = 10, maxY = 10, matrix = replicate 10 (replicate 10 white)\<rparr>"

definition grid12 :: Display where
  "grid12 = \<lparr>maxX = 12, maxY = 12, matrix = replicate 12 (replicate 12 white)\<rparr>"

definition rect_1_3 :: Rectangle where
  "rect_1_3 = \<lparr>LL = \<lparr>X = 1, Y = 1\<rparr>, UR = \<lparr>X = 3, Y = 3\<rparr>, rect_C = red\<rparr>"

definition rect_1_3_drawn :: Display where
  "rect_1_3_drawn = \<lparr>maxX = 10, maxY = 10, matrix =
     [replicate 10 white,
      [white, red, red, red, white, white, white, white, white, white],
      [white, red, red, red, white, white, white, white, white, white],
      [white, red, red, red, white, white, white, white, white, white],
      replicate 10 white, replicate 10 white, replicate 10 white,
      replicate 10 white, replicate 10 white, replicate 10 white]\<rparr>"

definition rect_3_1 :: Rectangle where
  "rect_3_1 = \<lparr>LL = \<lparr>X = 3, Y = 3\<rparr>, UR = \<lparr>X = 1, Y = 1\<rparr>, rect_C = red\<rparr>"

definition circle_5_2 :: Circle where
  "circle_5_2 = \<lparr>CP = \<lparr>X = 5, Y = 5\<rparr>, R = 2, circ_C = blue\<rparr>"

definition circle_5_2_drawn :: Display where
  "circle_5_2_drawn = \<lparr>maxX = 12, maxY = 12, matrix =
     [replicate 12 white, replicate 12 white, replicate 12 white,
      [white, white, white, white, white, blue, white, white, white, white, white, white],
      [white, white, white, white, blue, blue, blue, white, white, white, white, white],
      [white, white, white, blue, blue, blue, blue, blue, white, white, white, white],
      [white, white, white, white, blue, blue, blue, white, white, white, white, white],
      [white, white, white, white, white, blue, white, white, white, white, white, white],
      replicate 12 white, replicate 12 white, replicate 12 white, replicate 12 white]\<rparr>"

definition circle_neg :: Circle where
  "circle_neg = \<lparr>CP = \<lparr>X = 5, Y = 5\<rparr>, R = - 1, circ_C = blue\<rparr>"

text \<open>
  The triangle of the coverage test on the 10 by 10 display, and what drawing it leaves.
\<close>

definition tri_flat_top :: Triangle where
  "tri_flat_top = \<lparr>Pt0 = \<lparr>X = 0, Y = 0\<rparr>, Pt1 = \<lparr>X = 4, Y = 0\<rparr>, Pt2 = \<lparr>X = 0, Y = 4\<rparr>, tri_C = red\<rparr>"

definition tri_flat_top_drawn :: Display where
  "tri_flat_top_drawn = \<lparr>maxX = 10, maxY = 10, matrix =
     [[red, red, red, red, red, white, white, white, white, white],
      [white, red, red, red, white, white, white, white, white, white],
      [white, red, red, white, white, white, white, white, white, white],
      [white, red, white, white, white, white, white, white, white, white],
      replicate 10 white, replicate 10 white, replicate 10 white,
      replicate 10 white, replicate 10 white, replicate 10 white]\<rparr>"

text \<open>
  The number of consecutive points \<open>(0, y), (1, y), ...\<close> that hold the color \<open>c\<close>: the
  length of the painted run of row \<open>y\<close> that starts at \<open>x = 0\<close>. The point \<open>(x, y)\<close> is the
  cell \<^verbatim>\<open>drawPixel(x, y, _)\<close> writes, row \<open>x\<close> and column \<open>y\<close> of the grid.
\<close>

definition run_from_0 :: "Display \<Rightarrow> Color \<Rightarrow> int \<Rightarrow> nat" where
  "run_from_0 d c y = length (takeWhile (\<lambda>row. row ! nat y = c) (matrix d))"

text \<open>
  The display \<^verbatim>\<open>initialize(2, 1)\<close> leaves (one row of two cells), and a rectangle two
  points wide that passes the bounds check on it.
\<close>

definition grid21 :: Display where
  "grid21 = \<lparr>maxX = 2, maxY = 1, matrix = [[white, white]]\<rparr>"

definition rect_wide :: Rectangle where
  "rect_wide = \<lparr>LL = \<lparr>X = 0, Y = 0\<rparr>, UR = \<lparr>X = 1, Y = 0\<rparr>, rect_C = red\<rparr>"

text \<open>
  A file system with no file, where nothing fails, and the 3 by 2 display after
  \<^verbatim>\<open>drawPixel(1, 2, red)\<close>.
\<close>

definition fs_empty :: FS where
  "fs_empty = \<lparr>files = Map.empty, denied = [], budget = None\<rparr>"

definition grid32_dot :: Display where
  "grid32_dot = \<lparr>maxX = 3, maxY = 2, matrix = [[white, white, white], [white, white, red]]\<rparr>"






section \<open>Basic facts\<close>

lemmas color_defs =
  red_def green_def blue_def yellow_def orange_def purple_def brown_def black_def white_def

lemma colorMap_white [simp]: "colorMap white = Some (255, 255, 255)"
  by (simp add: colorMap_def color_defs)

lemma drawPixel_cases:
  "drawPixel x y c d =
     (if y < 0 \<or> x < 0 \<or> y \<ge> maxX d \<or> x \<ge> maxY d then Fail PixelOutOfBounds d
      else if colorMap c = None then Fail ColorUnknown d
      else if nat x < length (matrix d) \<and> nat y < length (matrix d ! nat x)
      then Ok (d\<lparr>matrix := (matrix d)[nat x := (matrix d ! nat x)[nat y := c]]\<rparr>)
      else Panic)"
  by (simp add: drawPixel_def Let_def)

lemma wf_row_length:
  "wf_display d \<Longrightarrow> i < nat (maxY d) \<Longrightarrow> length (matrix d ! i) = nat (maxX d)"
  by (simp add: wf_display_def list_all_length)

lemma wf_in_range:
  "wf_display d \<Longrightarrow> 0 \<le> i \<Longrightarrow> i < maxY d \<Longrightarrow> 0 \<le> j \<Longrightarrow> j < maxX d \<Longrightarrow>
   nat i < length (matrix d) \<and> nat j < length (matrix d ! nat i)"
  using wf_row_length [of d "nat i"] by (simp add: wf_display_def)

lemma drawPixel_wf_Ok:
  assumes "wf_display d" "0 \<le> x" "x < maxY d" "0 \<le> y" "y < maxX d" "colorMap c \<noteq> None"
  shows "drawPixel x y c d =
           Ok (d\<lparr>matrix := (matrix d)[nat x := (matrix d ! nat x)[nat y := c]]\<rparr>)"
  using assms wf_in_range [of d x y] by (simp add: drawPixel_cases)

lemma drawPixel_Ok_wf:
  assumes "wf_display d" "drawPixel x y c d = Ok d'"
  shows "wf_display d'"
  using assms
  by (auto simp: drawPixel_cases wf_display_def list_all_length nth_list_update split: if_splits)

lemma drawPixel_Ok_dims:
  "drawPixel x y c d = Ok d' \<Longrightarrow> maxX d' = maxX d \<and> maxY d' = maxY d"
  by (auto simp: drawPixel_cases split: if_splits)


lemma wf_grid32: "wf_display grid32"
  by (simp add: grid32_def wf_display_def)

section \<open>Claim C3: the transposed write and the plain read\<close>

text \<open>
  C3. On every well-formed (initialized) display, \<^verbatim>\<open>drawPixel(x, y, c)\<close> fails with the
  out-of-bounds error exactly when \<open>x\<close> is outside \<open>[0, maxY)\<close> or \<open>y\<close> is outside
  \<open>[0, maxX)\<close>, fails with the unknown-color error when the coordinates are in range and
  \<open>c\<close> is not in the color table, and otherwise stores \<open>c\<close> at row \<open>x\<close>, column \<open>y\<close>.
  \<^verbatim>\<open>getPixel(x, y)\<close> fails exactly when \<open>(x, y)\<close> is outside \<open>[0, maxX) \<times> [0, maxY)\<close> and
  otherwise reads row \<open>y\<close>, column \<open>x\<close>. Hence after a successful \<^verbatim>\<open>drawPixel(x, y, c)\<close>,
  \<^verbatim>\<open>getPixel(y, x)\<close> returns \<open>c\<close>.
\<close>

theorem drawPixel_getPixel_transposed:
  assumes "wf_display d"
  shows "(drawPixel x y c d = Fail PixelOutOfBounds d
            \<longleftrightarrow> \<not> (0 \<le> x \<and> x < maxY d) \<or> \<not> (0 \<le> y \<and> y < maxX d))
       \<and> (0 \<le> x \<and> x < maxY d \<and> 0 \<le> y \<and> y < maxX d \<and> colorMap c = None
            \<longrightarrow> drawPixel x y c d = Fail ColorUnknown d)
       \<and> (0 \<le> x \<and> x < maxY d \<and> 0 \<le> y \<and> y < maxX d \<and> colorMap c \<noteq> None
            \<longrightarrow> (\<exists>d'. drawPixel x y c d = Ok d' \<and> matrix d' ! nat x ! nat y = c
                      \<and> matrix d' = (matrix d)[nat x := (matrix d ! nat x)[nat y := c]]
                      \<and> getPixel y x d' = Ok c))
       \<and> (getPixel x y d = Fail PixelOutOfBounds 0
            \<longleftrightarrow> \<not> (0 \<le> x \<and> x < maxX d) \<or> \<not> (0 \<le> y \<and> y < maxY d))
       \<and> (0 \<le> x \<and> x < maxX d \<and> 0 \<le> y \<and> y < maxY d
            \<longrightarrow> getPixel x y d = Ok (matrix d ! nat y ! nat x))
       \<and> (\<forall>d'. drawPixel x y c d = Ok d' \<longrightarrow> getPixel y x d' = Ok c)"
proof (intro conjI)
  show "drawPixel x y c d = Fail PixelOutOfBounds d
          \<longleftrightarrow> \<not> (0 \<le> x \<and> x < maxY d) \<or> \<not> (0 \<le> y \<and> y < maxX d)"
    by (auto simp: drawPixel_cases)
  show "0 \<le> x \<and> x < maxY d \<and> 0 \<le> y \<and> y < maxX d \<and> colorMap c = None
          \<longrightarrow> drawPixel x y c d = Fail ColorUnknown d"
    by (auto simp: drawPixel_cases)
  have get: "getPixel y x d' = Ok c"
    if "drawPixel x y c d = Ok d'" for d'
  proof -
    from that have b: "0 \<le> x" "x < maxY d" "0 \<le> y" "y < maxX d" "colorMap c \<noteq> None"
      by (auto simp: drawPixel_cases split: if_splits)
    from drawPixel_wf_Ok [OF assms b] that
    have m: "matrix d' = (matrix d)[nat x := (matrix d ! nat x)[nat y := c]]" by auto
    from that have dims: "maxX d' = maxX d" "maxY d' = maxY d"
      using drawPixel_Ok_dims by blast+
    from wf_in_range [OF assms b(1-4)] show ?thesis
      using b by (simp add: getPixel_def m dims)
  qed
  then show "\<forall>d'. drawPixel x y c d = Ok d' \<longrightarrow> getPixel y x d' = Ok c" by blast
  show "0 \<le> x \<and> x < maxY d \<and> 0 \<le> y \<and> y < maxX d \<and> colorMap c \<noteq> None
          \<longrightarrow> (\<exists>d'. drawPixel x y c d = Ok d' \<and> matrix d' ! nat x ! nat y = c
                    \<and> matrix d' = (matrix d)[nat x := (matrix d ! nat x)[nat y := c]]
                    \<and> getPixel y x d' = Ok c)"
  proof (intro impI)
    assume a: "0 \<le> x \<and> x < maxY d \<and> 0 \<le> y \<and> y < maxX d \<and> colorMap c \<noteq> None"
    then have ok: "drawPixel x y c d =
        Ok (d\<lparr>matrix := (matrix d)[nat x := (matrix d ! nat x)[nat y := c]]\<rparr>)"
      using drawPixel_wf_Ok [OF assms] by blast
    from a wf_in_range [OF assms, of x y]
    have "((matrix d)[nat x := (matrix d ! nat x)[nat y := c]]) ! nat x ! nat y = c"
      by simp
    with ok get show "\<exists>d'. drawPixel x y c d = Ok d' \<and> matrix d' ! nat x ! nat y = c
                    \<and> matrix d' = (matrix d)[nat x := (matrix d ! nat x)[nat y := c]]
                    \<and> getPixel y x d' = Ok c"
      by simp
  qed
  show "getPixel x y d = Fail PixelOutOfBounds 0
          \<longleftrightarrow> \<not> (0 \<le> x \<and> x < maxX d) \<or> \<not> (0 \<le> y \<and> y < maxY d)"
    using wf_in_range [OF assms, of y x] by (auto simp: getPixel_def)
  show "0 \<le> x \<and> x < maxX d \<and> 0 \<le> y \<and> y < maxY d
          \<longrightarrow> getPixel x y d = Ok (matrix d ! nat y ! nat x)"
    using wf_in_range [OF assms, of y x] by (auto simp: getPixel_def)
qed

theorem drawPixel_getPixel_transposed_witness:
  "wf_display grid32
   \<and> drawPixel 1 2 red grid32 =
       Ok \<lparr>maxX = 3, maxY = 2, matrix = [[white, white, white], [white, white, red]]\<rparr>
   \<and> getPixel 2 1 \<lparr>maxX = 3, maxY = 2, matrix = [[white, white, white], [white, white, red]]\<rparr> = Ok red
   \<and> drawPixel 2 1 red grid32 = Fail PixelOutOfBounds grid32
   \<and> drawPixel 1 2 9 grid32 = Fail ColorUnknown grid32"
  using drawPixel_getPixel_transposed [OF wf_grid32, of 1 2 red]
    drawPixel_getPixel_transposed [OF wf_grid32, of 2 1 red]
    drawPixel_getPixel_transposed [OF wf_grid32, of 1 2 9]
  by (simp add: grid32_def drawPixel_cases getPixel_def colorMap_def color_defs wf_display_def)

section \<open>Every operation keeps the cells in the color table\<close>

lemma drawPixel_colors_known:
  assumes "colors_known d" "drawPixel x y c d = Ok d' \<or> drawPixel x y c d = Fail e d'"
  shows "colors_known d'"
proof -
  have "colorMap v \<noteq> None"
    if "colorMap c \<noteq> None" "v \<in> set (row[j := c])" "list_all (\<lambda>c. colorMap c \<noteq> None) row"
    for v row j
    using that set_update_subset_insert [of row j c] by (auto simp: list_all_iff)
  then have upd: "list_all (\<lambda>c. colorMap c \<noteq> None) (row[j := c])"
    if "colorMap c \<noteq> None" "list_all (\<lambda>c. colorMap c \<noteq> None) row" for row j
    using that by (auto simp: list_all_iff)
  have rows: "list_all (list_all (\<lambda>c. colorMap c \<noteq> None)) (m[i := r])"
    if "list_all (list_all (\<lambda>c. colorMap c \<noteq> None)) m" "list_all (\<lambda>c. colorMap c \<noteq> None) r"
    for m :: "Color list list" and i r
    using that set_update_subset_insert [of m i r] by (auto simp: list_all_iff)
  show ?thesis
    using assms
    by (auto simp: drawPixel_cases colors_known_def list_all_length nth_list_update
             split: if_splits intro!: rows upd)
qed

lemma paint_colors_known:
  "colors_known d \<Longrightarrow> paint ps c d = Ok d' \<or> paint ps c d = Fail e d' \<Longrightarrow> colors_known d'"
proof (induction ps arbitrary: d)
  case Nil
  then show ?case by simp
next
  case (Cons p ps)
  show ?case
  proof (cases "drawPixel (fst p) (snd p) c d")
    case (Ok d1)
    then have "colors_known d1" using Cons.prems(1) drawPixel_colors_known by blast
    with Cons.IH [of d1] Cons.prems(2) Ok show ?thesis by simp
  next
    case (Fail e1 d1)
    then have "colors_known d1" using Cons.prems(1) drawPixel_colors_known by blast
    with Cons.prems(2) Fail show ?thesis by auto
  next
    case Panic
    with Cons.prems(2) show ?thesis by simp
  qed
qed

lemma fill_rows_colors_known:
  "colors_known d \<Longrightarrow>
   fill_rows xl xr y0 ys c d = Ok d' \<or> fill_rows xl xr y0 ys c d = Fail e d' \<Longrightarrow>
   colors_known d'"
proof (induction ys arbitrary: d)
  case Nil
  then show ?case by simp
next
  case (Cons y ys)
  from Cons.prems(2) obtain l r where
    l: "index xl (y - y0) = Some l" and r: "index xr (y - y0) = Some r"
    by (auto split: option.splits)
  show ?case
  proof (cases "paint (map (\<lambda>x. (x, y)) [l .. r]) c d")
    case (Ok d1)
    then have "colors_known d1" using Cons.prems(1) paint_colors_known by blast
    with Cons.IH [of d1] Cons.prems(2) Ok l r show ?thesis by simp
  next
    case (Fail e1 d1)
    then have "colors_known d1" using Cons.prems(1) paint_colors_known by blast
    with Cons.prems(2) Fail l r show ?thesis by auto
  next
    case Panic
    with Cons.prems(2) l r show ?thesis by simp
  qed
qed

lemma Rectangle_draw_colors_known:
  "colors_known d \<Longrightarrow> Rectangle_draw r d = Ok d' \<or> Rectangle_draw r d = Fail e d' \<Longrightarrow>
   colors_known d'"
  by (auto simp: Rectangle_draw_def getMaxXY_def split: if_splits dest: paint_colors_known)

lemma Circle_draw_colors_known:
  "colors_known d \<Longrightarrow> Circle_draw c d = Ok d' \<or> Circle_draw c d = Fail e d' \<Longrightarrow>
   colors_known d'"
  by (auto simp: Circle_draw_def getMaxXY_def split: if_splits dest: paint_colors_known)

lemma Triangle_draw_colors_known:
  "colors_known d \<Longrightarrow> Triangle_draw t d = Ok d' \<or> Triangle_draw t d = Fail e d' \<Longrightarrow>
   colors_known d'"
  by (auto simp: Triangle_draw_def getMaxXY_def
           split: if_splits prod.splits option.splits dest: fill_rows_colors_known)

lemma shot_cells_no_invalid:
  "colors_known d \<Longrightarrow> shot_cells d y xs w \<noteq> Fail (InvalidColorAt a b) w'"
proof (induction xs arbitrary: w)
  case Nil
  then show ?case by simp
next
  case (Cons x xs)
  show ?case
  proof (cases "nat y < length (matrix d) \<and> nat x < length (matrix d ! nat y)")
    case True
    with Cons.prems have "colorMap (matrix d ! nat y ! nat x) \<noteq> None"
      by (simp add: colors_known_def list_all_length)
    then obtain col where "colorMap (matrix d ! nat y ! nat x) = Some col" by blast
    with True Cons.IH [OF Cons.prems] show ?thesis
      by (simp split: option.splits)
  next
    case False
    then show ?thesis by auto
  qed
qed

lemma shot_rows_no_invalid:
  "colors_known d \<Longrightarrow> shot_rows d ys w \<noteq> Fail (InvalidColorAt a b) w'"
proof (induction ys arbitrary: w)
  case Nil
  then show ?case by simp
next
  case (Cons y ys)
  from shot_cells_no_invalid [OF Cons.prems] Cons.IH [OF Cons.prems]
  show ?case by (auto split: outcome.splits option.splits)
qed

lemma screenShot_no_invalid:
  "colors_known d \<Longrightarrow> screenShot name d fs \<noteq> Fail (InvalidColorAt a b) fs'"
  using shot_rows_no_invalid [of d]
  by (auto simp: screenShot_def Let_def split: outcome.splits option.splits)

lemma initialize_Ok:
  "0 \<le> w \<Longrightarrow> 0 < h \<Longrightarrow>
   initialize w h d =
     Ok (d\<lparr>maxX := w, maxY := h, matrix := replicate (nat h) (replicate (nat w) white)\<rparr>)"
  by (simp add: initialize_def make_slice_def map_replicate_const)

lemma initialize_colors_known: "initialize w h d = Ok d' \<Longrightarrow> colors_known d'"
  by (auto simp: initialize_def make_slice_def colors_known_def list_all_iff
           split: option.splits if_splits)

lemma initialize_wf: "initialize w h d = Ok d' \<Longrightarrow> 0 \<le> w \<Longrightarrow> wf_display d'"
  by (auto simp: initialize_def make_slice_def wf_display_def list_all_iff
           split: option.splits if_splits)

section \<open>Claim C4: the grid after initialization and the color invariant\<close>

text \<open>
  C4. After \<^verbatim>\<open>initialize(w, h)\<close> with positive \<open>w\<close> and \<open>h\<close>, \<^verbatim>\<open>getPixel(x, y)\<close> returns white
  for all \<open>0 \<le> x < w\<close>, \<open>0 \<le> y < h\<close>, and \<^verbatim>\<open>getMaxXY()\<close> returns \<open>(w, h)\<close>. Every operation
  (\<^verbatim>\<open>initialize\<close>, \<^verbatim>\<open>drawPixel\<close>, \<^verbatim>\<open>clearScreen\<close>, the three shape draws, whether they return
  success or an error) leaves every cell holding a color of the table, and on a display
  with that property \<^verbatim>\<open>screenShot\<close> never returns its invalid-color error.
\<close>

theorem grid_color_invariant:
  "(0 < w \<and> 0 < h \<longrightarrow>
      (\<exists>d'. initialize w h d = Ok d' \<and> getMaxXY d' = (w, h)
         \<and> (\<forall>x y. 0 \<le> x \<and> x < w \<and> 0 \<le> y \<and> y < h \<longrightarrow> getPixel x y d' = Ok white)))
   \<and> (\<forall>d'. initialize w h d = Ok d' \<longrightarrow> colors_known d')
   \<and> colors_known (clearScreen d)
   \<and> (colors_known d \<longrightarrow>
        (\<forall>d' e. drawPixel x y c d = Ok d' \<or> drawPixel x y c d = Fail e d' \<longrightarrow> colors_known d')
      \<and> (\<forall>d' e. Rectangle_draw r d = Ok d' \<or> Rectangle_draw r d = Fail e d' \<longrightarrow> colors_known d')
      \<and> (\<forall>d' e. Circle_draw ci d = Ok d' \<or> Circle_draw ci d = Fail e d' \<longrightarrow> colors_known d')
      \<and> (\<forall>d' e. Triangle_draw t d = Ok d' \<or> Triangle_draw t d = Fail e d' \<longrightarrow> colors_known d')
      \<and> (\<forall>name fs a b fs'. screenShot name d fs \<noteq> Fail (InvalidColorAt a b) fs'))"
proof (intro conjI impI allI)
  assume wh: "0 < w \<and> 0 < h"
  let ?d = "d\<lparr>maxX := w, maxY := h, matrix := replicate (nat h) (replicate (nat w) white)\<rparr>"
  have "initialize w h d = Ok ?d" using wh initialize_Ok by simp
  moreover have "getMaxXY ?d = (w, h)" by (simp add: getMaxXY_def)
  moreover have "getPixel x y ?d = Ok white" if "0 \<le> x \<and> x < w \<and> 0 \<le> y \<and> y < h" for x y
    using that by (simp add: getPixel_def)
  ultimately show "\<exists>d'. initialize w h d = Ok d' \<and> getMaxXY d' = (w, h)
         \<and> (\<forall>x y. 0 \<le> x \<and> x < w \<and> 0 \<le> y \<and> y < h \<longrightarrow> getPixel x y d' = Ok white)"
    by blast
next
  show "colors_known (clearScreen d)"
    by (simp add: clearScreen_def colors_known_def list_all_iff)
qed (blast intro: initialize_colors_known drawPixel_colors_known Rectangle_draw_colors_known
      Circle_draw_colors_known Triangle_draw_colors_known dest: screenShot_no_invalid)+

theorem grid_color_invariant_witness:
  "(0::int) < 3 \<and> (0::int) < 2 \<and> initialize 3 2 \<lparr>maxX = 0, maxY = 0, matrix = []\<rparr> = Ok grid32
   \<and> getMaxXY grid32 = (3, 2) \<and> getPixel 2 1 grid32 = Ok white \<and> colors_known grid32
   \<and> drawPixel 1 2 red grid32 =
       Ok \<lparr>maxX = 3, maxY = 2, matrix = [[white, white, white], [white, white, red]]\<rparr>
   \<and> colors_known \<lparr>maxX = 3, maxY = 2, matrix = [[white, white, white], [white, white, red]]\<rparr>"
  using grid_color_invariant [of 3 2 "\<lparr>maxX = 0, maxY = 0, matrix = []\<rparr>" 1 2 red]
    grid_color_invariant [of 3 2 grid32 1 2 red]
  by (simp add: grid32_def initialize_def make_slice_def getMaxXY_def getPixel_def colors_known_def
        drawPixel_cases colorMap_def color_defs numeral_3_eq_3 numeral_2_eq_2)

section \<open>Claim C10: initialize on non-positive dimensions\<close>

text \<open>
  C10. \<^verbatim>\<open>initialize(w, h)\<close> panics when \<open>h < 0\<close>, and when \<open>w < 0\<close> and \<open>h > 0\<close>; it
  returns no error value. \<^verbatim>\<open>initialize(0, 0)\<close> is accepted and leaves a grid without cells, on
  which every \<^verbatim>\<open>drawPixel\<close> and every \<^verbatim>\<open>getPixel\<close> fails with the out-of-bounds error.
\<close>

theorem initialize_partial:
  "(h < 0 \<longrightarrow> initialize w h d = Panic)
   \<and> (w < 0 \<and> 0 < h \<longrightarrow> initialize w h d = Panic)
   \<and> initialize 0 0 d = Ok (d\<lparr>maxX := 0, maxY := 0, matrix := []\<rparr>)
   \<and> (\<forall>x y c. drawPixel x y c (d\<lparr>maxX := 0, maxY := 0, matrix := []\<rparr>)
                = Fail PixelOutOfBounds (d\<lparr>maxX := 0, maxY := 0, matrix := []\<rparr>))
   \<and> (\<forall>x y. getPixel x y (d\<lparr>maxX := 0, maxY := 0, matrix := []\<rparr>) = Fail PixelOutOfBounds 0)"
  by (auto simp: initialize_def make_slice_def drawPixel_cases getPixel_def)

theorem initialize_partial_witness:
  "(- 1 :: int) < 0 \<and> initialize 5 (- 1) grid32 = Panic
   \<and> (- 5 :: int) < 0 \<and> (0 :: int) < 2 \<and> initialize (- 5) 2 grid32 = Panic
   \<and> initialize 0 0 grid32 = Ok \<lparr>maxX = 0, maxY = 0, matrix = []\<rparr>
   \<and> drawPixel 0 0 white \<lparr>maxX = 0, maxY = 0, matrix = []\<rparr>
       = Fail PixelOutOfBounds \<lparr>maxX = 0, maxY = 0, matrix = []\<rparr>
   \<and> getPixel 0 0 \<lparr>maxX = 0, maxY = 0, matrix = []\<rparr> = Fail PixelOutOfBounds 0"
  using initialize_partial [of "- 1" 5 grid32] initialize_partial [of 2 "- 5" grid32]
  by (simp add: grid32_def)

section \<open>What a sequence of pixel writes does\<close>

lemma drawPixel_Ok_iff:
  assumes "wf_display d"
  shows "drawPixel x y c d = Ok d' \<longleftrightarrow>
           in_grid d (x, y) \<and> colorMap c \<noteq> None
           \<and> d' = d\<lparr>matrix := (matrix d)[nat x := (matrix d ! nat x)[nat y := c]]\<rparr>"
  using wf_in_range [OF assms, of x y]
  by (auto simp: drawPixel_cases in_grid_def)

lemma drawPixel_cell:
  assumes "wf_display d" "drawPixel x y c d = Ok d'" "0 \<le> i" "i < maxY d" "0 \<le> j" "j < maxX d"
  shows "matrix d' ! nat i ! nat j = (if (i, j) = (x, y) then c else matrix d ! nat i ! nat j)"
proof -
  from assms(1,2) have b: "0 \<le> x" "x < maxY d" "0 \<le> y" "y < maxX d"
    and m: "matrix d' = (matrix d)[nat x := (matrix d ! nat x)[nat y := c]]"
    by (auto simp: drawPixel_Ok_iff in_grid_def)
  from wf_in_range [OF assms(1) b] wf_in_range [OF assms(1) assms(3-6)] b assms(3-6)
  show ?thesis
    by (auto simp: m nth_list_update)
qed

lemma paint_Ok_cells:
  "wf_display d \<Longrightarrow> paint ps c d = Ok d' \<Longrightarrow>
   wf_display d' \<and> maxX d' = maxX d \<and> maxY d' = maxY d
   \<and> (\<forall>p \<in> set ps. in_grid d p)
   \<and> (\<forall>i j. 0 \<le> i \<and> i < maxY d \<and> 0 \<le> j \<and> j < maxX d \<longrightarrow>
         matrix d' ! nat i ! nat j = (if (i, j) \<in> set ps then c else matrix d ! nat i ! nat j))"
proof (induction ps arbitrary: d)
  case Nil
  then show ?case by simp
next
  case (Cons p ps)
  from Cons.prems(2) obtain d1 where d1: "drawPixel (fst p) (snd p) c d = Ok d1"
    and rest: "paint ps c d1 = Ok d'"
    by (auto split: outcome.splits)
  from d1 Cons.prems(1) have wf1: "wf_display d1" by (rule drawPixel_Ok_wf [rotated])
  from d1 have dims: "maxX d1 = maxX d" "maxY d1 = maxY d"
    using drawPixel_Ok_dims by blast+
  from d1 Cons.prems(1) have pin: "in_grid d p"
    by (simp add: drawPixel_Ok_iff)
  note IH = Cons.IH [OF wf1 rest]
  have "in_grid d q" if "q \<in> set ps" for q
    using IH that by (simp add: in_grid_def dims)
  moreover have "matrix d' ! nat i ! nat j
                   = (if (i, j) \<in> set (p # ps) then c else matrix d ! nat i ! nat j)"
    if "0 \<le> i \<and> i < maxY d \<and> 0 \<le> j \<and> j < maxX d" for i j
  proof -
    from that IH have "matrix d' ! nat i ! nat j
        = (if (i, j) \<in> set ps then c else matrix d1 ! nat i ! nat j)"
      by (simp add: dims)
    moreover have "matrix d1 ! nat i ! nat j
        = (if (i, j) = (fst p, snd p) then c else matrix d ! nat i ! nat j)"
      using drawPixel_cell [OF Cons.prems(1) d1] that by blast
    ultimately show ?thesis by auto
  qed
  ultimately show ?case using IH pin by (simp add: dims)
qed

lemma paint_empty_run: "r < l \<Longrightarrow> paint (map f [l .. r]) c d = Ok d"
  by simp

lemma set_rect_pixels:
  "set (rect_pixels r) =
     {(x, y). X (LL r) \<le> x \<and> x \<le> X (UR r) \<and> Y (LL r) \<le> y \<and> y \<le> Y (UR r)}"
  by (auto simp: rect_pixels_def)

lemma set_circle_pixels:
  "set (circle_pixels c) =
     {(X (CP c) + dx, Y (CP c) + dy) | dx dy.
        - R c \<le> dx \<and> dx \<le> R c \<and> - R c \<le> dy \<and> dy \<le> R c \<and> dx * dx + dy * dy \<le> R c * R c}"
  by (auto simp: circle_pixels_def)

lemma square_le_imp_le:
  fixes a b :: int
  assumes "a * a + b * b \<le> r * r" "0 \<le> r"
  shows "- r \<le> a \<and> a \<le> r"
proof -
  have "a * a \<le> r * r" using assms(1) by (smt (verit) zero_le_square)
  then have "\<bar>a\<bar> \<le> \<bar>r\<bar>" using abs_le_square_iff [of a r] by (simp add: power2_eq_square)
  with assms(2) show ?thesis by linarith
qed

lemma set_circle_pixels_disk:
  assumes "0 \<le> R c"
  shows "set (circle_pixels c) =
     {(X (CP c) + dx, Y (CP c) + dy) | dx dy. dx * dx + dy * dy \<le> R c * R c}"
proof -
  have "- R c \<le> dx \<and> dx \<le> R c \<and> - R c \<le> dy \<and> dy \<le> R c"
    if "dx * dx + dy * dy \<le> R c * R c" for dx dy
    using square_le_imp_le [OF that assms] square_le_imp_le [of dy dx "R c"] that assms
    by (simp add: add.commute)
  then show ?thesis unfolding set_circle_pixels by blast
qed

lemma wf_grid10: "wf_display grid10"
  by (simp add: grid10_def wf_display_def list_all_iff)

lemma wf_grid12: "wf_display grid12"
  by (simp add: grid12_def wf_display_def list_all_iff)

lemma Rectangle_draw_rect_1_3: "Rectangle_draw rect_1_3 grid10 = Ok rect_1_3_drawn"
  by code_simp

lemma Circle_draw_circle_5_2: "Circle_draw circle_5_2 grid12 = Ok circle_5_2_drawn"
  by code_simp

section \<open>Claim C5: the rectangle fill\<close>

text \<open>
  C5. A point \<open>(x, y)\<close> is the cell \<^verbatim>\<open>drawPixel(x, y, _)\<close> writes: row \<open>x\<close>, column \<open>y\<close> of
  the grid, read back by \<^verbatim>\<open>getPixel(y, x)\<close>. When \<^verbatim>\<open>Rectangle.draw\<close> returns success on a
  well-formed display, exactly the points with \<open>LL.X \<le> x \<le> UR.X\<close> and
  \<open>LL.Y \<le> y \<le> UR.Y\<close> hold the rectangle's color, all of them lie in the grid, and every
  other cell is unchanged. When the bounds check passes and \<open>UR\<close> is left of or below
  \<open>LL\<close>, the draw returns success and changes nothing. (For \<open>LL = (1,1)\<close>, \<open>UR = (3,3)\<close>
  on a fresh 10 by 10 grid: the nine cells, see the witness.)
\<close>

theorem rectangle_fill_exact:
  assumes "wf_display d"
  shows "(\<forall>d'. Rectangle_draw r d = Ok d' \<longrightarrow>
            wf_display d' \<and> getMaxXY d' = getMaxXY d
            \<and> (\<forall>x y. 0 \<le> x \<and> x < maxY d \<and> 0 \<le> y \<and> y < maxX d \<longrightarrow>
                  matrix d' ! nat x ! nat y =
                    (if X (LL r) \<le> x \<and> x \<le> X (UR r) \<and> Y (LL r) \<le> y \<and> y \<le> Y (UR r)
                     then rect_C r else matrix d ! nat x ! nat y)
                \<and> getPixel y x d' = Ok (matrix d' ! nat x ! nat y))
            \<and> (\<forall>x y. X (LL r) \<le> x \<and> x \<le> X (UR r) \<and> Y (LL r) \<le> y \<and> y \<le> Y (UR r) \<longrightarrow>
                  0 \<le> x \<and> x < maxY d \<and> 0 \<le> y \<and> y < maxX d))
       \<and> (0 \<le> X (LL r) \<and> 0 \<le> Y (LL r) \<and> X (UR r) < maxX d \<and> Y (UR r) < maxY d
            \<and> (X (UR r) < X (LL r) \<or> Y (UR r) < Y (LL r))
            \<longrightarrow> Rectangle_draw r d = Ok d)"
proof -
  have A: "wf_display d' \<and> getMaxXY d' = getMaxXY d
            \<and> (\<forall>x y. 0 \<le> x \<and> x < maxY d \<and> 0 \<le> y \<and> y < maxX d \<longrightarrow>
                  matrix d' ! nat x ! nat y =
                    (if X (LL r) \<le> x \<and> x \<le> X (UR r) \<and> Y (LL r) \<le> y \<and> y \<le> Y (UR r)
                     then rect_C r else matrix d ! nat x ! nat y)
                \<and> getPixel y x d' = Ok (matrix d' ! nat x ! nat y))
            \<and> (\<forall>x y. X (LL r) \<le> x \<and> x \<le> X (UR r) \<and> Y (LL r) \<le> y \<and> y \<le> Y (UR r) \<longrightarrow>
                  0 \<le> x \<and> x < maxY d \<and> 0 \<le> y \<and> y < maxX d)"
    if ok: "Rectangle_draw r d = Ok d'" for d'
  proof -
    from ok have p: "paint (rect_pixels r) (rect_C r) d = Ok d'"
      by (auto simp: Rectangle_draw_def getMaxXY_def split: if_splits)
    note P = paint_Ok_cells [OF assms p]
    from P have wf': "wf_display d'" and dims: "maxX d' = maxX d" "maxY d' = maxY d"
      by simp_all
    have inside: "0 \<le> x \<and> x < maxY d \<and> 0 \<le> y \<and> y < maxX d"
      if "X (LL r) \<le> x \<and> x \<le> X (UR r) \<and> Y (LL r) \<le> y \<and> y \<le> Y (UR r)" for x y
    proof -
      from that have "(x, y) \<in> set (rect_pixels r)" by (simp add: set_rect_pixels)
      with P have "in_grid d (x, y)" by blast
      then show ?thesis by (simp add: in_grid_def)
    qed
    have cells: "matrix d' ! nat x ! nat y =
                    (if X (LL r) \<le> x \<and> x \<le> X (UR r) \<and> Y (LL r) \<le> y \<and> y \<le> Y (UR r)
                     then rect_C r else matrix d ! nat x ! nat y)
                \<and> getPixel y x d' = Ok (matrix d' ! nat x ! nat y)"
      if b: "0 \<le> x \<and> x < maxY d \<and> 0 \<le> y \<and> y < maxX d" for x y
    proof
      from b P show "matrix d' ! nat x ! nat y =
                    (if X (LL r) \<le> x \<and> x \<le> X (UR r) \<and> Y (LL r) \<le> y \<and> y \<le> Y (UR r)
                     then rect_C r else matrix d ! nat x ! nat y)"
        by (simp add: set_rect_pixels)
      from b wf' dims wf_in_range [of d' x y]
      show "getPixel y x d' = Ok (matrix d' ! nat x ! nat y)"
        by (simp add: getPixel_def)
    qed
    have "getMaxXY d' = getMaxXY d" using dims by (simp add: getMaxXY_def)
    with wf' inside cells show ?thesis by blast
  qed
  have B: "Rectangle_draw r d = Ok d"
    if a: "0 \<le> X (LL r) \<and> 0 \<le> Y (LL r) \<and> X (UR r) < maxX d \<and> Y (UR r) < maxY d
            \<and> (X (UR r) < X (LL r) \<or> Y (UR r) < Y (LL r))"
  proof -
    from a have "rect_pixels r = []"
      by (auto simp: rect_pixels_def)
    with a show ?thesis
      by (auto simp: Rectangle_draw_def getMaxXY_def)
  qed
  from A B show ?thesis by blast
qed

theorem rectangle_fill_exact_witness:
  "wf_display grid10 \<and> Rectangle_draw rect_1_3 grid10 = Ok rect_1_3_drawn
   \<and> matrix rect_1_3_drawn ! nat 3 ! nat 1 = red \<and> getPixel 1 3 rect_1_3_drawn = Ok red
   \<and> matrix rect_1_3_drawn ! nat 4 ! nat 1 = white \<and> getPixel 1 4 rect_1_3_drawn = Ok white
   \<and> 0 \<le> X (LL rect_3_1) \<and> 0 \<le> Y (LL rect_3_1)
   \<and> X (UR rect_3_1) < maxX grid10 \<and> Y (UR rect_3_1) < maxY grid10
   \<and> X (UR rect_3_1) < X (LL rect_3_1)
   \<and> Rectangle_draw rect_3_1 grid10 = Ok grid10"
proof -
  have dims: "maxX grid10 = 10" "maxY grid10 = 10"
    by (simp_all add: grid10_def)
  from rectangle_fill_exact [OF wf_grid10, of rect_1_3] Rectangle_draw_rect_1_3
  have cells: "0 \<le> x \<and> x < maxY grid10 \<and> 0 \<le> y \<and> y < maxX grid10 \<Longrightarrow>
      matrix rect_1_3_drawn ! nat x ! nat y =
        (if X (LL rect_1_3) \<le> x \<and> x \<le> X (UR rect_1_3) \<and> Y (LL rect_1_3) \<le> y \<and> y \<le> Y (UR rect_1_3)
         then rect_C rect_1_3 else matrix grid10 ! nat x ! nat y)
      \<and> getPixel y x rect_1_3_drawn = Ok (matrix rect_1_3_drawn ! nat x ! nat y)" for x y
    by blast
  have inside: "matrix rect_1_3_drawn ! nat 3 ! nat 1 = red \<and> getPixel 1 3 rect_1_3_drawn = Ok red"
    using cells [of 3 1] by (simp add: dims rect_1_3_def)
  have "matrix grid10 ! nat 4 ! nat 1 = white"
    by (simp add: grid10_def)
  then have outside:
    "matrix rect_1_3_drawn ! nat 4 ! nat 1 = white \<and> getPixel 1 4 rect_1_3_drawn = Ok white"
    using cells [of 4 1] by (simp add: dims rect_1_3_def)
  have pre: "0 \<le> X (LL rect_3_1) \<and> 0 \<le> Y (LL rect_3_1)
      \<and> X (UR rect_3_1) < maxX grid10 \<and> Y (UR rect_3_1) < maxY grid10
      \<and> X (UR rect_3_1) < X (LL rect_3_1)"
    by (simp add: rect_3_1_def dims)
  with rectangle_fill_exact [OF wf_grid10, of rect_3_1]
  have "Rectangle_draw rect_3_1 grid10 = Ok grid10" by blast
  with wf_grid10 Rectangle_draw_rect_1_3 inside outside pre show ?thesis by blast
qed

section \<open>Claim C6: the circle fill\<close>

text \<open>
  C6, as stated, at a negative radius: with \<open>CP = (5,5)\<close> and \<open>R = - 1\<close> on a 12 by 12 grid
  the bounds check passes, the loops from \<open>- R\<close> to \<open>R\<close> are empty and the draw returns
  success with the grid unchanged, although the offset \<open>(0, 0)\<close> satisfies
  \<open>dx * dx + dy * dy \<le> R * R\<close>.
\<close>

theorem circle_draw_negative_radius:
  "Circle_draw circle_neg grid12 = Ok grid12
   \<and> 0 * 0 + 0 * 0 \<le> R circle_neg * R circle_neg
   \<and> matrix grid12 ! nat (X (CP circle_neg) + 0) ! nat (Y (CP circle_neg) + 0) \<noteq> circ_C circle_neg"
  by (simp add: Circle_draw_def circle_neg_def grid12_def getMaxXY_def circle_pixels_def color_defs)

text \<open>
  C6, amended. When \<^verbatim>\<open>Circle.draw\<close> returns success on a well-formed display and the radius
  is not negative, every point at an offset \<open>(dx, dy)\<close> with \<open>dx * dx + dy * dy \<le> R * R\<close>
  lies in the grid, and the cell at offset \<open>(dx, dy)\<close> from the center (row \<open>CP.X + dx\<close>,
  column \<open>CP.Y + dy\<close>) holds the circle's color if \<open>dx * dx + dy * dy \<le> R * R\<close> and is
  unchanged otherwise.
\<close>

theorem circle_disk_membership:
  assumes "wf_display d" "0 \<le> R c" "Circle_draw c d = Ok d'"
  shows "wf_display d' \<and> getMaxXY d' = getMaxXY d
         \<and> (\<forall>dx dy. dx * dx + dy * dy \<le> R c * R c \<longrightarrow>
               0 \<le> X (CP c) + dx \<and> X (CP c) + dx < maxY d
               \<and> 0 \<le> Y (CP c) + dy \<and> Y (CP c) + dy < maxX d)
         \<and> (\<forall>dx dy. 0 \<le> X (CP c) + dx \<and> X (CP c) + dx < maxY d
                   \<and> 0 \<le> Y (CP c) + dy \<and> Y (CP c) + dy < maxX d \<longrightarrow>
               matrix d' ! nat (X (CP c) + dx) ! nat (Y (CP c) + dy) =
                 (if dx * dx + dy * dy \<le> R c * R c then circ_C c
                  else matrix d ! nat (X (CP c) + dx) ! nat (Y (CP c) + dy))
               \<and> getPixel (Y (CP c) + dy) (X (CP c) + dx) d'
                   = Ok (matrix d' ! nat (X (CP c) + dx) ! nat (Y (CP c) + dy)))"
proof -
  from assms(3) have p: "paint (circle_pixels c) (circ_C c) d = Ok d'"
    by (auto simp: Circle_draw_def getMaxXY_def split: if_splits)
  note P = paint_Ok_cells [OF assms(1) p]
  from P have wf': "wf_display d'" and dims: "maxX d' = maxX d" "maxY d' = maxY d"
    by simp_all
  have mem: "(X (CP c) + dx, Y (CP c) + dy) \<in> set (circle_pixels c)
               \<longleftrightarrow> dx * dx + dy * dy \<le> R c * R c" for dx dy
    by (auto simp: set_circle_pixels_disk [OF assms(2)])
  have inside: "0 \<le> X (CP c) + dx \<and> X (CP c) + dx < maxY d
               \<and> 0 \<le> Y (CP c) + dy \<and> Y (CP c) + dy < maxX d"
    if "dx * dx + dy * dy \<le> R c * R c" for dx dy
  proof -
    from that have "(X (CP c) + dx, Y (CP c) + dy) \<in> set (circle_pixels c)" by (simp add: mem)
    with P have "in_grid d (X (CP c) + dx, Y (CP c) + dy)" by blast
    then show ?thesis by (simp add: in_grid_def)
  qed
  have cells: "matrix d' ! nat (X (CP c) + dx) ! nat (Y (CP c) + dy) =
                 (if dx * dx + dy * dy \<le> R c * R c then circ_C c
                  else matrix d ! nat (X (CP c) + dx) ! nat (Y (CP c) + dy))
               \<and> getPixel (Y (CP c) + dy) (X (CP c) + dx) d'
                   = Ok (matrix d' ! nat (X (CP c) + dx) ! nat (Y (CP c) + dy))"
    if b: "0 \<le> X (CP c) + dx \<and> X (CP c) + dx < maxY d
                   \<and> 0 \<le> Y (CP c) + dy \<and> Y (CP c) + dy < maxX d" for dx dy
  proof
    from b P have "matrix d' ! nat (X (CP c) + dx) ! nat (Y (CP c) + dy) =
        (if (X (CP c) + dx, Y (CP c) + dy) \<in> set (circle_pixels c) then circ_C c
         else matrix d ! nat (X (CP c) + dx) ! nat (Y (CP c) + dy))"
      by blast
    then show "matrix d' ! nat (X (CP c) + dx) ! nat (Y (CP c) + dy) =
                 (if dx * dx + dy * dy \<le> R c * R c then circ_C c
                  else matrix d ! nat (X (CP c) + dx) ! nat (Y (CP c) + dy))"
      by (simp only: mem)
    from b wf' dims wf_in_range [of d' "X (CP c) + dx" "Y (CP c) + dy"]
    show "getPixel (Y (CP c) + dy) (X (CP c) + dx) d'
                   = Ok (matrix d' ! nat (X (CP c) + dx) ! nat (Y (CP c) + dy))"
      by (simp add: getPixel_def)
  qed
  have "getMaxXY d' = getMaxXY d" using dims by (simp add: getMaxXY_def)
  with wf' inside cells show ?thesis by blast
qed

theorem circle_disk_membership_witness:
  "wf_display grid12 \<and> 0 \<le> R circle_5_2 \<and> Circle_draw circle_5_2 grid12 = Ok circle_5_2_drawn
   \<and> 2 * 2 + 0 * 0 \<le> R circle_5_2 * R circle_5_2
   \<and> matrix circle_5_2_drawn ! nat (X (CP circle_5_2) + 2) ! nat (Y (CP circle_5_2) + 0) = blue
   \<and> \<not> 2 * 2 + 2 * 2 \<le> R circle_5_2 * R circle_5_2
   \<and> matrix circle_5_2_drawn ! nat (X (CP circle_5_2) + 2) ! nat (Y (CP circle_5_2) + 2) = white"
proof -
  have r: "0 \<le> R circle_5_2" by (simp add: circle_5_2_def)
  have dims: "maxX grid12 = 12" "maxY grid12 = 12"
    by (simp_all add: grid12_def)
  from circle_disk_membership [OF wf_grid12 r Circle_draw_circle_5_2]
  have cells: "0 \<le> X (CP circle_5_2) + dx \<and> X (CP circle_5_2) + dx < maxY grid12
        \<and> 0 \<le> Y (CP circle_5_2) + dy \<and> Y (CP circle_5_2) + dy < maxX grid12 \<Longrightarrow>
      matrix circle_5_2_drawn ! nat (X (CP circle_5_2) + dx) ! nat (Y (CP circle_5_2) + dy) =
        (if dx * dx + dy * dy \<le> R circle_5_2 * R circle_5_2 then circ_C circle_5_2
         else matrix grid12 ! nat (X (CP circle_5_2) + dx) ! nat (Y (CP circle_5_2) + dy))" for dx dy
    by blast
  have on: "2 * 2 + 0 * 0 \<le> R circle_5_2 * R circle_5_2" by (simp add: circle_5_2_def)
  have off: "\<not> 2 * 2 + 2 * 2 \<le> R circle_5_2 * R circle_5_2" by (simp add: circle_5_2_def)
  have c: "circ_C circle_5_2 = blue" by (simp add: circle_5_2_def)
  have a: "matrix circle_5_2_drawn ! nat (X (CP circle_5_2) + 2) ! nat (Y (CP circle_5_2) + 0) = blue"
    using cells [of 2 0] on c by (simp add: dims circle_5_2_def)
  have "matrix grid12 ! nat (X (CP circle_5_2) + 2) ! nat (Y (CP circle_5_2) + 2) = white"
    by (simp add: grid12_def circle_5_2_def)
  then have b: "matrix circle_5_2_drawn ! nat (X (CP circle_5_2) + 2) ! nat (Y (CP circle_5_2) + 2) = white"
    using cells [of 2 2] off by (simp add: dims circle_5_2_def)
  from wf_grid12 r Circle_draw_circle_5_2 on off a b show ?thesis by blast
qed

section \<open>Rounding to a double: exact cases and the error bound\<close>

lemma floor_log2_bounds:
  assumes "0 < q"
  shows "2 powi (floor_log2 q) \<le> q \<and> q < 2 powi (floor_log2 q + 1)"
proof -
  obtain a b where ab: "quotient_of q = (a, b)" by (cases "quotient_of q")
  then have b: "0 < b" and q: "q = of_int a / of_int b"
    by (simp_all add: quotient_of_denom_pos quotient_of_div)
  from assms q b have a: "0 < a"
    by (simp add: zero_less_divide_iff)
  define la where "la = bitlen a"
  define lb where "lb = bitlen b"
  from bitlen_bounds [OF a] have la: "2 ^ nat (la - 1) \<le> a" "a < 2 ^ nat la"
    by (simp_all add: la_def)
  from bitlen_bounds [OF b] have lb: "2 ^ nat (lb - 1) \<le> b" "b < 2 ^ nat lb"
    by (simp_all add: lb_def)
  have la1: "1 \<le> la" using a by (simp add: la_def bitlen_alt_def)
  have lb1: "1 \<le> lb" using b by (simp add: lb_def bitlen_alt_def)
  have ra: "(2::rat) powi (la - 1) \<le> of_int a" "of_int a < (2::rat) powi la"
  proof -
    have "(2::rat) powi (la - 1) = of_int (2 ^ nat (la - 1))"
      using la1 by (simp add: power_int_def)
    also have "\<dots> \<le> of_int a" using la(1) by (simp only: of_int_le_iff)
    finally show "(2::rat) powi (la - 1) \<le> of_int a" .
    have "(of_int a :: rat) < of_int (2 ^ nat la)" using la(2) by (simp only: of_int_less_iff)
    also have "\<dots> = 2 powi la" using la1 by (simp add: power_int_def)
    finally show "of_int a < (2::rat) powi la" .
  qed
  have rb: "(2::rat) powi (lb - 1) \<le> of_int b" "of_int b < (2::rat) powi lb"
  proof -
    have "(2::rat) powi (lb - 1) = of_int (2 ^ nat (lb - 1))"
      using lb1 by (simp add: power_int_def)
    also have "\<dots> \<le> of_int b" using lb(1) by (simp only: of_int_le_iff)
    finally show "(2::rat) powi (lb - 1) \<le> of_int b" .
    have "(of_int b :: rat) < of_int (2 ^ nat lb)" using lb(2) by (simp only: of_int_less_iff)
    also have "\<dots> = 2 powi lb" using lb1 by (simp add: power_int_def)
    finally show "of_int b < (2::rat) powi lb" .
  qed
  have bpos: "(0::rat) < of_int b" using b by simp
  have p2: "(0::rat) < 2 powi n" for n by (simp add: zero_less_power_int)
  have lower: "2 powi (la - lb - 1) \<le> q"
  proof -
    have "(2::rat) powi (la - lb - 1) * of_int b \<le> 2 powi (la - lb - 1) * 2 powi lb"
      using rb(2) p2 [of "la - lb - 1"] by (simp add: mult_left_mono less_imp_le)
    also have "\<dots> = 2 powi (la - 1)"
      by (simp flip: power_int_add)
    also have "\<dots> \<le> of_int a" by (rule ra(1))
    finally show ?thesis using bpos by (simp add: q pos_le_divide_eq)
  qed
  have upper: "q < 2 powi (la - lb + 1)"
  proof -
    have "of_int a < (2::rat) powi la" by (rule ra(2))
    also have "\<dots> = 2 powi (la - lb + 1) * 2 powi (lb - 1)"
      by (simp flip: power_int_add)
    also have "\<dots> \<le> 2 powi (la - lb + 1) * of_int b"
      using rb(1) p2 [of "la - lb + 1"] by (simp add: mult_left_mono less_imp_le)
    finally show ?thesis using bpos by (simp add: q pos_divide_less_eq)
  qed
  have fl: "floor_log2 q = (if 2 powi (la - lb) \<le> q then la - lb else la - lb - 1)"
    by (simp add: floor_log2_def ab la_def lb_def)
  show ?thesis
  proof (cases "2 powi (la - lb) \<le> q")
    case True
    with upper fl show ?thesis by simp
  next
    case False
    with lower fl show ?thesis by simp
  qed
qed

lemma floor_log2_unique:
  assumes "2 powi k \<le> q" "q < 2 powi (k + 1)"
  shows "floor_log2 q = k"
proof -
  have "(0::rat) < 2 powi k" by (simp add: zero_less_power_int)
  with assms(1) have q0: "0 < q" by linarith
  note B = floor_log2_bounds [OF q0]
  have "k < floor_log2 q + 1"
  proof (rule ccontr)
    assume "\<not> k < floor_log2 q + 1"
    then have "(2::rat) powi (floor_log2 q + 1) \<le> 2 powi k"
      by (intro power_int_increasing) simp_all
    with B assms(1) show False by simp
  qed
  moreover have "floor_log2 q < k + 1"
  proof (rule ccontr)
    assume "\<not> floor_log2 q < k + 1"
    then have "(2::rat) powi (k + 1) \<le> 2 powi (floor_log2 q)"
      by (intro power_int_increasing) simp_all
    with B assms(2) show False by simp
  qed
  ultimately show ?thesis by simp
qed

lemma round_half_even_of_int [simp]: "round_half_even (of_int n) = n"
  by (simp add: round_half_even_def)


lemma f64_round_exact:
  assumes q: "q \<noteq> 0" and small: "\<bar>q\<bar> < 2 ^ 1024"
    and int: "\<bar>q\<bar> / 2 powi (max (floor_log2 \<bar>q\<bar> - 52) (- 1074)) = of_int m"
  shows "f64_round q = Finite q"
proof -
  define e where "e = max (floor_log2 \<bar>q\<bar> - 52) (- 1074)"
  have p: "(2::rat) powi e \<noteq> 0" by simp
  from int have "of_int m * 2 powi e = \<bar>q\<bar>"
    unfolding e_def [symmetric] using p by (simp add: field_simps)
  moreover have "sgn q * \<bar>q\<bar> = q" by (simp add: sgn_mult_abs)
  ultimately show ?thesis
    using q small int unfolding f64_round_def e_def [symmetric]
    by (simp add: Let_def)
qed

lemma f64_round_of_int:
  assumes "\<bar>i\<bar> \<le> 2 ^ 53"
  shows "f64_round (of_int i) = Finite (of_int i)"
proof (cases "i = 0")
  case True
  then show ?thesis by (simp add: f64_round_def)
next
  case False
  define q :: rat where "q = of_int i"
  have q0: "q \<noteq> 0" using False by (simp add: q_def)
  have absq: "\<bar>q\<bar> = of_int \<bar>i\<bar>" by (simp add: q_def)
  have pos: "0 < \<bar>q\<bar>" using q0 by simp
  have ge1: "1 \<le> \<bar>q\<bar>" using False unfolding absq by (simp add: q_def)
  have le: "\<bar>q\<bar> \<le> 2 ^ 53"
  proof -
    have "(of_int \<bar>i\<bar> :: rat) \<le> of_int (2 ^ 53)" using assms by (simp only: of_int_le_iff)
    then show ?thesis by (simp add: absq)
  qed
  have small: "\<bar>q\<bar> < 2 ^ 1024"
  proof -
    have "(2::rat) ^ 53 < 2 ^ 1024" by (rule power_strict_increasing) simp_all
    with le show ?thesis by linarith
  qed
  define E where "E = floor_log2 \<bar>q\<bar>"
  note B = floor_log2_bounds [OF pos, folded E_def]
  have E0: "0 \<le> E"
  proof (rule ccontr)
    assume "\<not> 0 \<le> E"
    then have "(2::rat) powi (E + 1) \<le> 2 powi 0" by (intro power_int_increasing) simp_all
    with B ge1 show False by simp
  qed
  have E53: "E \<le> 53"
  proof (rule ccontr)
    assume "\<not> E \<le> 53"
    then have "(2::rat) powi 54 \<le> 2 powi E" by (intro power_int_increasing) simp_all
    moreover have "(2::rat) powi 54 = 2 ^ 54" by (simp add: power_int_def)
    moreover have "(2::rat) ^ 53 < 2 ^ 54" by simp
    ultimately show False using B le by linarith
  qed
  have e: "max (E - 52) (- 1074) = E - 52" using E0 by simp
  have "\<exists>m. \<bar>q\<bar> / 2 powi (E - 52) = of_int m"
  proof (cases "E \<le> 52")
    case True
    have "\<bar>q\<bar> / 2 powi (E - 52) = \<bar>q\<bar> * 2 powi (52 - E)"
      using power_int_minus [of "2::rat" "E - 52"] by (simp add: field_simps)
    also have "\<dots> = of_int \<bar>i\<bar> * of_int (2 ^ nat (52 - E))"
      using True by (simp add: absq power_int_def)
    also have "\<dots> = of_int (\<bar>i\<bar> * 2 ^ nat (52 - E))" by simp
    finally show ?thesis by blast
  next
    case False
    with E53 have E: "E = 53" by simp
    have "(2::rat) powi 53 \<le> \<bar>q\<bar>" using B E by simp
    then have "\<bar>q\<bar> = 2 ^ 53" using le by (simp add: power_int_def)
    then have "\<bar>q\<bar> / 2 powi (E - 52) = of_int (2 ^ 52)" by (simp add: E)
    then show ?thesis by blast
  qed
  then obtain m where "\<bar>q\<bar> / 2 powi (max (floor_log2 \<bar>q\<bar> - 52) (- 1074)) = of_int m"
    using e by (auto simp: E_def)
  from f64_round_exact [OF q0 small this] show ?thesis by (simp add: q_def)
qed




section \<open>The values interpolate produces\<close>

lemma length_interp_loop [simp]: "length (interp_loop a d ys) = length ys"
  by (induction ys arbitrary: d) simp_all




section \<open>Evaluating interpolate on small integers\<close>

lemma f64_round_numeral [simp]:
  "numeral n \<le> (2 ^ 53 :: int) \<Longrightarrow> f64_round (numeral n) = Finite (numeral n)"
  using f64_round_of_int [of "numeral n"] by simp

lemma f64_round_neg_numeral [simp]:
  "numeral n \<le> (2 ^ 53 :: int) \<Longrightarrow> f64_round (- numeral n) = Finite (- numeral n)"
  using f64_round_of_int [of "- numeral n"] by simp

lemma f64_round_0 [simp]: "f64_round 0 = Finite 0"
  by (simp add: f64_round_def)

lemma f64_round_1 [simp]: "f64_round 1 = Finite 1"
  using f64_round_of_int [of 1] by simp

lemma f64_round_neg_1 [simp]: "f64_round (- 1) = Finite (- 1)"
  using f64_round_of_int [of "- 1"] by simp

lemmas interpolate_eval = interpolate_def f64_of_int_def int_of_f64_def upto_rec1

lemma interpolate_0_0_0_4: "interpolate 0 0 0 4 = Some [0]"
  by (simp add: interpolate_eval)

lemma interpolate_0_4_4_0: "interpolate 0 4 4 0 = Some [4, 3, 2, 1, 0]"
  by (simp add: interpolate_eval)

lemma interpolate_0_0_4_0: "interpolate 0 0 4 0 = Some [0, 0, 0, 0, 0]"
  by (simp add: interpolate_eval)

lemma edges_flat_top:
  "triangle_edges (0, 0) (4, 0) (0, 4) = Some ([0, 0, 0, 0, 0], [0, 3, 2, 1, 0])"
  by (simp add: triangle_edges_def interpolate_0_0_0_4 interpolate_0_4_4_0 interpolate_0_0_4_0
      index_def)

lemma fill_flat_top:
  "fill_rows [0, 0, 0, 0, 0] [0, 3, 2, 1, 0] 0 [0 .. 4] red grid10 = Ok tri_flat_top_drawn"
  by code_simp

section \<open>Claim C2: the triangle (0,0), (4,0), (0,4)\<close>

text \<open>
  C2 says that drawing the triangle with vertices \<open>(0,0)\<close>, \<open>(4,0)\<close>, \<open>(0,4)\<close> on a fresh
  10 by 10 display succeeds and leaves in every row \<open>y\<close> from 0 to 4 a painted run that
  starts at \<open>x = 0\<close> and gets strictly shorter as \<open>y\<close> grows. The draw does succeed, but
  the runs have the lengths 1, 4, 3, 2, 1: the first edge is the single row \<open>y = 0\<close>, for
  which \<^verbatim>\<open>interpolate\<close> returns \<open>[x0] = [0]\<close>, and \<^verbatim>\<open>append(x01, x12[1:]...)\<close> then drops the
  value \<open>4\<close> of the second edge at that row, so row 0 is painted from 0 to 0 only.
\<close>

theorem triangle_flat_top_rows:
  "Triangle_draw tri_flat_top grid10 = Ok tri_flat_top_drawn
   \<and> map (run_from_0 tri_flat_top_drawn red) [0, 1, 2, 3, 4] = [1, 4, 3, 2, 1]"
proof
  have "sort_vertices tri_flat_top = ((0, 0), (4, 0), (0, 4))"
    by (simp add: sort_vertices_def tri_flat_top_def)
  moreover have "getMaxXY grid10 = (10, 10)" by (simp add: getMaxXY_def grid10_def)
  moreover have "tri_C tri_flat_top = red" by (simp add: tri_flat_top_def)
  ultimately show "Triangle_draw tri_flat_top grid10 = Ok tri_flat_top_drawn"
    by (simp add: Triangle_draw_def edges_flat_top fill_flat_top)
  show "map (run_from_0 tri_flat_top_drawn red) [0, 1, 2, 3, 4] = [1, 4, 3, 2, 1]"
    by (simp add: run_from_0_def tri_flat_top_drawn_def color_defs)
qed

section \<open>Rounding an integer a double cannot hold\<close>



section \<open>When interpolate returns on 64-bit arguments\<close>

lemma wrap64_id: "- (2 ^ 63) \<le> i \<Longrightarrow> i < 2 ^ 63 \<Longrightarrow> wrap64 i = i"
  by (simp add: wrap64_def)

lemma wrap64_range: "- (2 ^ 63) \<le> wrap64 i \<and> wrap64 i < 2 ^ 63"
proof -
  have "0 \<le> (i + 2 ^ 63) mod (2 ^ 64 :: int)" "(i + 2 ^ 63) mod (2 ^ 64 :: int) < 2 ^ 64"
    by simp_all
  then show ?thesis by (simp add: wrap64_def)
qed



text \<open>
  Rows that end below the largest integer: the counter never wraps, and the loop is the
  traversal of \<open>[y .. y1]\<close>.
\<close>

lemma interp_loop64_rows:
  assumes "- (2 ^ 63) \<le> y" "y1 < 2 ^ 63 - 1"
  shows "interp_loop64 a y1 d y vs = Some (vs @ interp_loop a d [y .. y1])"
  using assms(1)
proof (induction "nat (y1 + 1 - y)" arbitrary: y d vs)
  case 0
  then have "\<not> y \<le> y1" by simp
  then show ?case by (subst interp_loop64.simps) simp
next
  case (Suc n)
  then have le: "y \<le> y1" by simp
  with assms(2) Suc.prems have w: "wrap64 (y + 1) = y + 1" by (intro wrap64_id) simp_all
  have n: "n = nat (y1 + 1 - (y + 1))" using Suc.hyps(2) by simp
  have "- (2 ^ 63) \<le> y + 1" using Suc.prems by simp
  from Suc.hyps(1) [OF n this]
  have "interp_loop64 a y1 (f64_add d a) (y + 1) (vs @ [int_of_f64 d])
          = Some ((vs @ [int_of_f64 d]) @ interp_loop a (f64_add d a) [y + 1 .. y1])" .
  moreover have "[y .. y1] = y # [y + 1 .. y1]" using le by (rule upto_rec1)
  ultimately show ?case using le w by (subst interp_loop64.simps) simp
qed

text \<open>
  On the arguments \<^verbatim>\<open>Triangle.draw\<close> passes after its bounds check (coordinates from 0 up
  to a dimension of the display, the rows in order) the two definitions of
  \<^verbatim>\<open>interpolate\<close> agree.
\<close>

lemma interpolate_int64_in_grid:
  assumes "0 \<le> y0" "y0 \<le> y1" "y1 < 2 ^ 63 - 1" "0 \<le> x0" "x0 < 2 ^ 63" "0 \<le> x1" "x1 < 2 ^ 63"
  shows "interpolate_int64 y0 x0 y1 x1 = Some (interpolate y0 x0 y1 x1)"
proof -
  have dy: "wrap64 (y1 - y0) = y1 - y0" using assms by (intro wrap64_id) simp_all
  have cap: "wrap64 (y1 - y0 + 1) = y1 - y0 + 1" using assms by (intro wrap64_id) simp_all
  have dx: "wrap64 (x1 - x0) = x1 - x0" using assms by (intro wrap64_id) simp_all
  have y0: "- (2 ^ 63) \<le> y0" using assms(1) by simp
  show ?thesis
    using assms(2)
    by (simp add: interpolate_int64_def interpolate_def dy cap dx Let_def
        interp_loop64_rows [OF y0 assms(3)])
qed

text \<open>
  With \<open>y1\<close> the largest integer the loop never ends: whatever a call of the loop
  returns, it was not called with \<open>y1 = 2 ^ 63 - 1\<close>.
\<close>

lemma interp_loop64_returns_not_last_row:
  "interp_loop64 a y1 d y vs = Some r \<Longrightarrow> - (2 ^ 63) \<le> y \<Longrightarrow> y < 2 ^ 63 \<Longrightarrow> y1 \<noteq> 2 ^ 63 - 1"
proof (induction rule: interp_loop64.raw_induct [rotated 1, consumes 1, case_names step])
  case (step loop a y1 d y vs r)
  show ?case
  proof
    assume y1: "y1 = 2 ^ 63 - 1"
    from step(4) y1 have "y \<le> y1" by simp
    with step(2) have "loop a y1 (f64_add d a) (wrap64 (y + 1)) (vs @ [int_of_f64 d]) = Some r"
      by simp
    from step(1) [OF this] wrap64_range [of "y + 1"] y1 show False by simp
  qed
qed

lemma interp_loop64_never_returns:
  assumes "- (2 ^ 63) \<le> y" "y < 2 ^ 63"
  shows "interp_loop64 a (2 ^ 63 - 1) d y vs = None"
proof (cases "interp_loop64 a (2 ^ 63 - 1) d y vs")
  case None
  then show ?thesis .
next
  case (Some r)
  from interp_loop64_returns_not_last_row [OF this assms] show ?thesis by simp
qed

lemma interpolate_int64_last_row_never_returns:
  "interpolate_int64 (2 ^ 63 - 1) xa (2 ^ 63 - 1) xb = None"
proof -
  have "wrap64 0 = 0" "wrap64 1 = 1" by (simp_all add: wrap64_def)
  moreover have "interp_loop64 a (2 ^ 63 - 1) d (2 ^ 63 - 1) [] = None" for a d
    by (rule interp_loop64_never_returns) simp_all
  ultimately show ?thesis
    by (simp add: interpolate_int64_def Let_def)
qed

section \<open>Claim C8: a single-row interpolation\<close>




section \<open>The draws as a bounds check followed by a fill\<close>

lemma Rectangle_draw_alt:
  "Rectangle_draw r d =
     (if Rectangle_in_bounds r d then paint (rect_pixels r) (rect_C r) d
      else Fail GeometryOutOfBounds d)"
  by (simp add: Rectangle_draw_def Rectangle_in_bounds_def getMaxXY_def)




section \<open>Claim C1: all-or-nothing shape draws\<close>

text \<open>
  C1 says that a shape whose \<^verbatim>\<open>draw\<close> passes its bounds check has every \<^verbatim>\<open>drawPixel\<close> of
  the fill succeed, so that a draw that returns a failure has left the grid as it was.
  The code does not do this on a display that is not square. \<^verbatim>\<open>Rectangle.draw\<close> compares
  \<open>x\<close> with \<open>maxX\<close> and \<open>y\<close> with \<open>maxY\<close>, and \<^verbatim>\<open>drawPixel\<close> compares \<open>x\<close> with \<open>maxY\<close> and
  \<open>y\<close> with \<open>maxX\<close>. After \<^verbatim>\<open>initialize(2, 1)\<close> the red rectangle from \<open>(0,0)\<close> to \<open>(1,0)\<close>
  passes the bounds check (\<open>UR.X = 1 < maxX = 2\<close>, \<open>UR.Y = 0 < maxY = 1\<close>), the pixel
  \<open>(0,0)\<close> is written, and \<^verbatim>\<open>drawPixel(1, 0)\<close> fails because \<open>x = 1\<close> is not below
  \<open>maxY = 1\<close>: the draw returns the pixel-level out-of-bounds error and the grid has changed.
\<close>

theorem rectangle_partial_draw:
  "(\<forall>d. initialize 2 1 d = Ok grid21)
   \<and> wf_display grid21 \<and> Rectangle_in_bounds rect_wide grid21
   \<and> colorMap (rect_C rect_wide) \<noteq> None
   \<and> Rectangle_draw rect_wide grid21
       = Fail PixelOutOfBounds \<lparr>maxX = 2, maxY = 1, matrix = [[red, white]]\<rparr>
   \<and> \<lparr>maxX = 2, maxY = 1, matrix = [[red, white]]\<rparr> \<noteq> grid21"
proof -
  have "initialize 2 1 d = Ok grid21" for d
    by (simp add: initialize_def make_slice_def grid21_def numeral_2_eq_2)
  then show ?thesis
    by (simp add: grid21_def rect_wide_def wf_display_def Rectangle_in_bounds_def
        Rectangle_draw_alt rect_pixels_def upto_rec1 drawPixel_cases colorMap_def color_defs)
qed

section \<open>The text screenShot writes\<close>

lemma upto_eq_map_int: "[0 .. int n - 1] = map int [0 ..< n]"
proof (induction n)
  case 0
  then show ?case by simp
next
  case (Suc n)
  have "[0 .. int n] = [0 .. int n - 1] @ [int n]"
    by (rule upto_rec2) simp
  with Suc show ?case by simp
qed

lemma fprint_unlimited: "fprint s (w, None) = Some (w @ s, None)"
  by (simp add: fprint_def)

lemma shot_cells_text:
  assumes "nat y < length (matrix d)"
    "\<forall>x \<in> set xs. nat x < length (matrix d ! nat y) \<and> colorMap (matrix d ! nat y ! nat x) \<noteq> None"
  shows "shot_cells d y xs (w, None) =
           Ok (w @ concat (map (\<lambda>x. rgb_text (the (colorMap (matrix d ! nat y ! nat x)))) xs), None)"
  using assms(2)
proof (induction xs arbitrary: w)
  case Nil
  then show ?case by simp
next
  case (Cons x xs)
  from Cons.prems obtain col where col: "colorMap (matrix d ! nat y ! nat x) = Some col"
    and x: "nat x < length (matrix d ! nat y)" by auto
  from Cons.prems have "\<forall>x \<in> set xs. nat x < length (matrix d ! nat y)
      \<and> colorMap (matrix d ! nat y ! nat x) \<noteq> None" by simp
  from Cons.IH [OF this, of "w @ rgb_text col"] assms(1) x col show ?case
    by (simp add: fprint_unlimited)
qed

lemma shot_row_text:
  assumes "wf_display d" "colors_known d" "0 \<le> y" "y < maxY d"
  shows "shot_cells d y [0 .. maxX d - 1] (w, None) = Ok (w @ butlast (ppm_row (matrix d ! nat y)), None)"
proof -
  define row where "row = matrix d ! nat y"
  from assms have y: "nat y < length (matrix d)" by (simp add: wf_display_def)
  with assms(1) have len: "length row = nat (maxX d)" and mx: "0 \<le> maxX d"
    by (simp_all add: wf_display_def list_all_length row_def)
  from assms(2) y have known: "\<forall>c \<in> set row. colorMap c \<noteq> None"
    by (simp add: colors_known_def list_all_length row_def) (metis in_set_conv_nth)
  have idx: "[0 .. maxX d - 1] = map int [0 ..< length row]"
    using upto_eq_map_int [of "length row"] len mx by simp
  have "\<forall>x \<in> set [0 .. maxX d - 1]. nat x < length (matrix d ! nat y)
          \<and> colorMap (matrix d ! nat y ! nat x) \<noteq> None"
    using known len by (auto simp: row_def [symmetric])
  from shot_cells_text [OF y this, of w]
  have "shot_cells d y [0 .. maxX d - 1] (w, None) =
          Ok (w @ concat (map (\<lambda>x. rgb_text (the (colorMap (row ! nat x)))) [0 .. maxX d - 1]), None)"
    by (simp add: row_def)
  moreover have "map (\<lambda>x. rgb_text (the (colorMap (row ! nat x)))) [0 .. maxX d - 1]
                   = map (\<lambda>c. rgb_text (the (colorMap c))) row"
  proof -
    have "map (\<lambda>x. rgb_text (the (colorMap (row ! nat x)))) [0 .. maxX d - 1]
            = map (\<lambda>i. rgb_text (the (colorMap (row ! i)))) [0 ..< length row]"
      by (simp add: idx comp_def)
    also have "\<dots> = map (\<lambda>c. rgb_text (the (colorMap c))) (map (\<lambda>i. row ! i) [0 ..< length row])"
      by (simp add: comp_def)
    also have "map (\<lambda>i. row ! i) [0 ..< length row] = row" by (rule map_nth)
    finally show ?thesis .
  qed
  ultimately show ?thesis by (simp add: ppm_row_def row_def)
qed

lemma shot_rows_text:
  assumes "wf_display d" "colors_known d" "\<forall>y \<in> set ys. 0 \<le> y \<and> y < maxY d"
  shows "shot_rows d ys (w, None) = Ok (w @ concat (map (\<lambda>y. ppm_row (matrix d ! nat y)) ys), None)"
  using assms(3)
proof (induction ys arbitrary: w)
  case Nil
  then show ?case by simp
next
  case (Cons y ys)
  from Cons.prems have y: "0 \<le> y" "y < maxY d" by simp_all
  have nl: "butlast (ppm_row r) @ ''\<newline>'' = ppm_row r" for r
    by (simp add: ppm_row_def)
  from Cons.prems have "\<forall>y \<in> set ys. 0 \<le> y \<and> y < maxY d" by simp
  from Cons.IH [OF this, of "w @ ppm_row (matrix d ! nat y)"]
    shot_row_text [OF assms(1,2) y, of w] show ?case
    by (simp add: fprint_unlimited nl)
qed

lemma ppm_text_grid32_dot:
  "ppm_text grid32_dot =
     ''P3\<newline>3 2\<newline>255\<newline>255 255 255 255 255 255 255 255 255 \<newline>255 255 255 255 255 255 255 0 0 \<newline>''"
  by code_simp

lemma wf_grid32_dot: "wf_display grid32_dot"
  by (simp add: grid32_dot_def wf_display_def)

lemma colors_known_grid32_dot: "colors_known grid32_dot"
  by (simp add: grid32_dot_def colors_known_def colorMap_def color_defs)

section \<open>Claim C7: the format of the image file\<close>

text \<open>
  C7. For every well-formed display whose cells all hold colors of the table, and a file
  system that neither refuses the path nor fails a write, \<^verbatim>\<open>screenShot(name)\<close> returns
  success and leaves at the path \<open>name @ ''.ppm''\<close>, whatever was there before, the header
  \<^verbatim>\<open>P3\n<maxX> <maxY>\n255\n\<close> followed by one line per row of the grid in storage order
  (\<open>maxY\<close> rows, row 0 first), each line the \<open>maxX\<close> triples \<^verbatim>\<open>R G B\<close> of the table
  entries of the row's cells, each followed by a space, and a newline.
\<close>

theorem screenShot_format:
  assumes "wf_display d" "colors_known d" "name @ ''.ppm'' \<notin> set (denied fs)" "budget fs = None"
  shows "screenShot name d fs = Ok (fs\<lparr>files := (files fs)(name @ ''.ppm'' \<mapsto> ppm_text d)\<rparr>)
       \<and> ppm_text d = ''P3\<newline>'' @ string_of_int (maxX d) @ '' '' @ string_of_int (maxY d) @ ''\<newline>255\<newline>''
                         @ concat (map ppm_row (matrix d))
       \<and> length (matrix d) = nat (maxY d)
       \<and> (\<forall>row \<in> set (matrix d). length row = nat (maxX d)
            \<and> ppm_row row = concat (map (\<lambda>c. rgb_text (the (colorMap c))) row) @ ''\<newline>'')"
proof -
  have len: "length (matrix d) = nat (maxY d)" and my: "0 \<le> maxY d"
    using assms(1) by (simp_all add: wf_display_def)
  have "\<forall>y \<in> set [0 .. maxY d - 1]. 0 \<le> y \<and> y < maxY d" by auto
  from shot_rows_text [OF assms(1,2) this, of "ppm_header d"]
  have "shot_rows d [0 .. maxY d - 1] (ppm_header d, None)
          = Ok (ppm_header d @ concat (map (\<lambda>y. ppm_row (matrix d ! nat y)) [0 .. maxY d - 1]), None)" .
  moreover have "map (\<lambda>y. ppm_row (matrix d ! nat y)) [0 .. maxY d - 1] = map ppm_row (matrix d)"
  proof -
    have "[0 .. maxY d - 1] = map int [0 ..< length (matrix d)]"
      using upto_eq_map_int [of "length (matrix d)"] len my by simp
    then have "map (\<lambda>y. ppm_row (matrix d ! nat y)) [0 .. maxY d - 1]
          = map ppm_row (map (\<lambda>i. matrix d ! i) [0 ..< length (matrix d)])"
      by (simp add: comp_def)
    also have "map (\<lambda>i. matrix d ! i) [0 ..< length (matrix d)] = matrix d" by (rule map_nth)
    finally show ?thesis .
  qed
  ultimately have rows: "shot_rows d [0 .. maxY d - 1] (ppm_header d, None) = Ok (ppm_text d, None)"
    by (simp add: ppm_text_def)
  have "fs\<lparr>files := (files fs)(name @ ''.ppm'' \<mapsto> ppm_text d), budget := None\<rparr>
          = fs\<lparr>files := (files fs)(name @ ''.ppm'' \<mapsto> ppm_text d)\<rparr>"
    using assms(4) by simp
  with rows assms(3,4) have "screenShot name d fs
      = Ok (fs\<lparr>files := (files fs)(name @ ''.ppm'' \<mapsto> ppm_text d)\<rparr>)"
    by (simp add: screenShot_def Let_def fprint_unlimited store_def)
  moreover have "\<forall>row \<in> set (matrix d). length row = nat (maxX d)"
    using assms(1) by (simp add: wf_display_def list_all_iff)
  ultimately show ?thesis using len by (simp add: ppm_text_def ppm_row_def ppm_header_def)
qed

theorem screenShot_format_witness:
  "wf_display grid32_dot \<and> colors_known grid32_dot
   \<and> ''shot'' @ ''.ppm'' \<notin> set (denied fs_empty) \<and> budget fs_empty = None
   \<and> screenShot ''shot'' grid32_dot fs_empty =
       Ok (fs_empty\<lparr>files := (files fs_empty)(''shot.ppm'' \<mapsto>
         ''P3\<newline>3 2\<newline>255\<newline>255 255 255 255 255 255 255 255 255 \<newline>255 255 255 255 255 255 255 0 0 \<newline>'')\<rparr>)"
proof -
  have a: "''shot'' @ ''.ppm'' \<notin> set (denied fs_empty)" and b: "budget fs_empty = None"
    by (simp_all add: fs_empty_def)
  from screenShot_format [OF wf_grid32_dot colors_known_grid32_dot a b]
  have "screenShot ''shot'' grid32_dot fs_empty =
       Ok (fs_empty\<lparr>files := (files fs_empty)(''shot'' @ ''.ppm'' \<mapsto> ppm_text grid32_dot)\<rparr>)"
    by blast
  with wf_grid32_dot colors_known_grid32_dot a b show ?thesis
    by (simp add: ppm_text_grid32_dot)
qed

section \<open>The cells a triangle draw changes\<close>







lemma floor_log2_half: "floor_log2 (1 / 2) = - 1"
  by (rule floor_log2_unique) (simp_all add: power_int_minus)

lemma floor_log2_three_halves: "floor_log2 (3 / 2) = 0"
  by (rule floor_log2_unique) simp_all

lemma f64_round_half [simp]: "f64_round (1 / 2) = Finite (1 / 2)"
proof -
  have "\<bar>1 / 2 :: rat\<bar> / 2 powi (max (floor_log2 \<bar>1 / 2\<bar> - 52) (- 1074)) = of_int (2 ^ 52)"
    by (simp add: floor_log2_half power_int_minus)
  then show ?thesis by (intro f64_round_exact) simp_all
qed

lemma f64_round_three_halves [simp]: "f64_round (3 / 2) = Finite (3 / 2)"
proof -
  have "\<bar>3 / 2 :: rat\<bar> / 2 powi (max (floor_log2 \<bar>3 / 2\<bar> - 52) (- 1074)) = of_int (3 * 2 ^ 51)"
    by (simp add: floor_log2_three_halves power_int_minus)
  then show ?thesis by (intro f64_round_exact) simp_all
qed

lemma floor_half [simp]: "\<lfloor>1 / 2 :: rat\<rfloor> = 0"
  by (simp add: floor_eq_iff)

lemma floor_three_halves [simp]: "\<lfloor>3 / 2 :: rat\<rfloor> = 1"
  by (simp add: floor_eq_iff)














section \<open>Claim C9: collinear vertices\<close>




end
